theory Spec2Isabelle
  imports Main
begin

section \<open>JavaScript values read from the JSON documents\<close>

text \<open>
  The scripts read \<^verbatim>\<open>history/history.json\<close> and \<^verbatim>\<open>history/settings.json\<close> with
  \<^verbatim>\<open>JSON.parse\<close>, and the client reads the health body with \<^verbatim>\<open>r.json()\<close>, so every
  value they handle is a JSON value. A Number is kept as \<open>NumInt n\<close> when it is the
  integer \<open>n\<close> with \<open>\<bar>n\<bar> < 10^21\<close> (the range in which ECMAScript prints a Number as
  plain decimal digits), and as \<open>NumText s\<close> otherwise, where \<open>s\<close> is the text
  ECMAScript's Number-to-string conversion gives for it (\<^verbatim>\<open>7.5\<close>, \<^verbatim>\<open>1e+21\<close>,
  \<^verbatim>\<open>5e-7\<close>, and \<^verbatim>\<open>Infinity\<close> for a numeral such as \<^verbatim>\<open>1e999\<close> that overflows).
  Strings are restricted to ASCII. \<^verbatim>\<open>undefined\<close> is \<open>None\<close> of \<open>json option\<close>.
\<close>

datatype jsnumber = NumInt int | NumText string

datatype json =
    JNull
  | JBool bool
  | JNumber jsnumber
  | JString string
  | JArray "json list"
  | JObject "(string \<times> json) list"

text \<open>The result of \<^verbatim>\<open>Number.parseInt\<close> and \<^verbatim>\<open>Date.parse\<close>: \<^verbatim>\<open>NaN\<close> or a value.\<close>

datatype number = NaN | Finite int

fun Number_isFinite :: "number \<Rightarrow> bool" where
  "Number_isFinite NaN = False"
| "Number_isFinite (Finite _) = True"

text \<open>Property read \<^verbatim>\<open>v?.key\<close>: only an object has own properties of these names.\<close>

fun get_prop :: "json \<Rightarrow> string \<Rightarrow> json option" where
  "get_prop (JObject kvs) key = map_of kvs key"
| "get_prop _ key = None"

text \<open>\<^verbatim>\<open>a ?? b\<close>: the right operand replaces \<^verbatim>\<open>undefined\<close> and \<^verbatim>\<open>null\<close> only.\<close>

fun nullish :: "json option \<Rightarrow> json \<Rightarrow> json" where
  "nullish None d = d"
| "nullish (Some JNull) d = d"
| "nullish (Some v) d = v"

subsection \<open>Decimal numerals\<close>

definition digit_char :: "nat \<Rightarrow> char" where
  "digit_char d = char_of (48 + d)"

fun show_nat :: "nat \<Rightarrow> string" where
  "show_nat n = (if n < 10 then [digit_char n] else show_nat (n div 10) @ [digit_char (n mod 10)])"

declare show_nat.simps [simp del]

definition show_int :: "int \<Rightarrow> string" where
  "show_int i = (if i < 0 then CHR ''-'' # show_nat (nat (- i)) else show_nat (nat i))"

fun join_comma :: "string list \<Rightarrow> string" where
  "join_comma [] = []"
| "join_comma [s] = s"
| "join_comma (s # t # ss) = s @ CHR '','' # join_comma (t # ss)"

text \<open>
  \<^verbatim>\<open>String(v)\<close> can throw: an object parsed from JSON that has an own property named
  \<^verbatim>\<open>toString\<close> (never a function) has no primitive form, and the conversion raises a
  TypeError.
\<close>

datatype js_error = TypeError

fun collect :: "(js_error + 'a) list \<Rightarrow> js_error + 'a list" where
  "collect [] = Inr []"
| "collect (x # xs) =
     (case x of
        Inl e \<Rightarrow> Inl e
      | Inr v \<Rightarrow> (case collect xs of Inl e \<Rightarrow> Inl e | Inr vs \<Rightarrow> Inr (v # vs)))"

text \<open>
  \<^verbatim>\<open>String(v)\<close> on a JSON value: a string is itself, an array joins the strings of its
  elements with commas (\<^verbatim>\<open>null\<close> elements give the empty string, and an element that
  throws makes the whole conversion throw), an object is \<^verbatim>\<open>[object Object]\<close> unless it
  has an own \<^verbatim>\<open>toString\<close> property.
\<close>

fun js_String :: "json \<Rightarrow> js_error + string" where
  "js_String JNull = Inr ''null''"
| "js_String (JBool b) = Inr (if b then ''true'' else ''false'')"
| "js_String (JNumber (NumInt n)) = Inr (show_int n)"
| "js_String (JNumber (NumText s)) = Inr s"
| "js_String (JString s) = Inr s"
| "js_String (JArray xs) =
     (case collect (map (\<lambda>x. if x = JNull then Inr [] else js_String x) xs) of
        Inl e \<Rightarrow> Inl e
      | Inr ss \<Rightarrow> Inr (join_comma ss))"
| "js_String (JObject kvs) =
     (if map_of kvs ''toString'' \<noteq> None then Inl TypeError else Inr ''[object Object]'')"

definition String_of :: "json option \<Rightarrow> js_error + string" where
  "String_of v = (case v of None \<Rightarrow> Inr ''undefined'' | Some x \<Rightarrow> js_String x)"

subsection \<open>\<^verbatim>\<open>Number.parseInt(s, 10)\<close>\<close>

definition is_space :: "char \<Rightarrow> bool" where
  "is_space c = ((of_char c :: nat) \<in> {9, 10, 11, 12, 13, 32})"

definition is_digit :: "char \<Rightarrow> bool" where
  "is_digit c = (48 \<le> (of_char c :: nat) \<and> (of_char c :: nat) \<le> 57)"

definition digits_value :: "string \<Rightarrow> nat" where
  "digits_value ds = foldl (\<lambda>acc c. acc * 10 + (of_char c - 48)) 0 ds"

text \<open>
  Leading white space is skipped, one sign is read, then the longest run of decimal
  digits; no digit gives \<^verbatim>\<open>NaN\<close>, and whatever follows the digits is ignored. The value
  is kept exact: ECMAScript rounds a numeral beyond \<open>2^53\<close> to a double (or to
  \<^verbatim>\<open>Infinity\<close>), which changes no comparison with 1 or 3650.
\<close>

definition parseInt :: "string \<Rightarrow> number" where
  "parseInt s =
     (let t = dropWhile is_space s;
          neg = (t \<noteq> [] \<and> hd t = CHR ''-'');
          u = (if t \<noteq> [] \<and> (hd t = CHR ''-'' \<or> hd t = CHR ''+'') then tl t else t);
          z = takeWhile is_digit u
      in if z = [] then NaN
         else Finite (if neg then - int (digits_value z) else int (digits_value z)))"

section \<open>The platform and the file system\<close>

text \<open>
  The library functions whose results depend on the platform are parameters:
  \<^verbatim>\<open>JSON.parse\<close> of a file's content (\<open>None\<close> when it throws),
  \<^verbatim>\<open>JSON.stringify(v, null, 2)\<close>, and \<^verbatim>\<open>Date.parse\<close>.
\<close>

record 'doc platform =
  JSON_parse :: "'doc \<Rightarrow> json option"
  JSON_stringify :: "json \<Rightarrow> 'doc"
  Date_parse :: "string \<Rightarrow> number"

datatype path = historyDir | historyFile | settingsFile | tempPath

type_synonym 'doc fs = "path \<Rightarrow> 'doc option"

definition existsSync :: "'doc fs \<Rightarrow> path \<Rightarrow> bool" where
  "existsSync files p = (files p \<noteq> None)"

definition readJson :: "'doc platform \<Rightarrow> 'doc fs \<Rightarrow> path \<Rightarrow> json \<Rightarrow> json" where
  "readJson P files filePath fallback =
     (case files filePath of
        None \<Rightarrow> fallback
      | Some raw \<Rightarrow> (case JSON_parse P raw of None \<Rightarrow> fallback | Some v \<Rightarrow> v))"

section \<open>\<^verbatim>\<open>scripts/prune-history.mjs\<close>\<close>

definition DEFAULT_RETENTION_DAYS :: int where
  "DEFAULT_RETENTION_DAYS = 60"

definition MAX_RETENTION_DAYS :: int where
  "MAX_RETENTION_DAYS = 3650"

text \<open>
  \<^verbatim>\<open>resolveRetentionDays\<close>; \<open>Inl\<close> is a throw of \<^verbatim>\<open>String\<close>. The test
  \<^verbatim>\<open>!Number.isFinite(value)\<close> is the case \<open>NaN\<close>; both comparisons are false on
  \<^verbatim>\<open>NaN\<close>.
\<close>

definition resolveRetentionDays :: "'doc platform \<Rightarrow> 'doc fs \<Rightarrow> js_error + int" where
  "resolveRetentionDays P files =
     (let settings = readJson P files settingsFile (JObject [])
      in case js_String (nullish (get_prop settings ''historyRetentionDays'')
                           (JNumber (NumInt DEFAULT_RETENTION_DAYS))) of
           Inl e \<Rightarrow> Inl e
         | Inr s \<Rightarrow>
             (let value = parseInt s
              in case value of
                   NaN \<Rightarrow> Inr DEFAULT_RETENTION_DAYS
                 | Finite n \<Rightarrow>
                     Inr (if n < 1 \<or> n > MAX_RETENTION_DAYS then DEFAULT_RETENTION_DAYS else n)))"

text \<open>\<^verbatim>\<open>toTimestamp\<close>: \<open>Inr None\<close> is the \<^verbatim>\<open>null\<close> it returns, \<open>Inl\<close> a throw of \<^verbatim>\<open>String\<close>.\<close>

definition toTimestamp :: "'doc platform \<Rightarrow> json option \<Rightarrow> js_error + int option" where
  "toTimestamp P v =
     (case String_of v of
        Inl e \<Rightarrow> Inl e
      | Inr s \<Rightarrow>
          (let ms = Date_parse P s
           in Inr (if Number_isFinite ms then (case ms of Finite t \<Rightarrow> Some t | NaN \<Rightarrow> None)
                   else None)))"

text \<open>
  The \<^verbatim>\<open>filter\<close> call of \<^verbatim>\<open>prune\<close>, with the counter \<^verbatim>\<open>removed\<close> its callback
  increments: the items are visited front to back, the loop returns the kept items and
  the count, and a callback that throws ends it.
\<close>

fun prune_filter :: "'doc platform \<Rightarrow> int \<Rightarrow> json list \<Rightarrow> js_error + json list \<times> nat" where
  "prune_filter P cutoffMs [] = Inr ([], 0)"
| "prune_filter P cutoffMs (item # rest) =
     (case toTimestamp P (get_prop item ''createdAt'') of
        Inl e \<Rightarrow> Inl e
      | Inr createdAtMs \<Rightarrow>
          (case prune_filter P cutoffMs rest of
             Inl e \<Rightarrow> Inl e
           | Inr (kept, removed) \<Rightarrow>
               (case createdAtMs of
                  None \<Rightarrow> Inr (item # kept, removed)
                | Some t \<Rightarrow>
                    if t < cutoffMs then Inr (kept, removed + 1) else Inr (item # kept, removed))))"

datatype 'doc fsop = Mkdir path | WriteFile path 'doc | Rename path path

datatype message =
    NoHistoryFile
  | InvalidHistory
  | NothingOld int
  | DryRunReport nat nat int
  | Removed nat nat
  | Uncaught js_error

record 'doc prune_run =
  exitCode :: int
  ops :: "'doc fsop list"
  logged :: message

text \<open>
  \<^verbatim>\<open>prune\<close>: the exit code it returns, the file operations it performs and what it
  logs; \<open>Inl\<close> when it throws, which happens before any file operation.
\<close>

definition prune :: "'doc platform \<Rightarrow> bool \<Rightarrow> int \<Rightarrow> 'doc fs \<Rightarrow> js_error + 'doc prune_run" where
  "prune P dryRun now files =
     (if \<not> existsSync files historyFile
      then Inr \<lparr>exitCode = 0, ops = [], logged = NoHistoryFile\<rparr>
      else case readJson P files historyFile (JArray []) of
        JArray history \<Rightarrow>
          (case resolveRetentionDays P files of
             Inl e \<Rightarrow> Inl e
           | Inr days \<Rightarrow>
               (let cutoffMs = now - days * 24 * 60 * 60 * 1000
                in case prune_filter P cutoffMs history of
                     Inl e \<Rightarrow> Inl e
                   | Inr (kept, removed) \<Rightarrow>
                       if removed = 0
                       then Inr \<lparr>exitCode = 0, ops = [], logged = NothingOld days\<rparr>
                       else if dryRun
                       then Inr \<lparr>exitCode = 0, ops = [],
                                 logged = DryRunReport removed (length history) days\<rparr>
                       else Inr \<lparr>exitCode = 0,
                                 ops = [Mkdir historyDir,
                                        WriteFile tempPath (JSON_stringify P (JArray kept)),
                                        Rename tempPath historyFile],
                                 logged = Removed removed (length kept)\<rparr>))
      | _ \<Rightarrow> Inr \<lparr>exitCode = 1, ops = [], logged = InvalidHistory\<rparr>)"

text \<open>
  The script, \<^verbatim>\<open>process.exitCode = prune()\<close>: when \<^verbatim>\<open>prune\<close> throws, nothing catches
  the error and the process ends with exit code 1.
\<close>

definition prune_script :: "'doc platform \<Rightarrow> bool \<Rightarrow> int \<Rightarrow> 'doc fs \<Rightarrow> 'doc prune_run" where
  "prune_script P dryRun now files =
     (case prune P dryRun now files of
        Inl e \<Rightarrow> \<lparr>exitCode = 1, ops = [], logged = Uncaught e\<rparr>
      | Inr r \<Rightarrow> r)"

text \<open>
  The file operations: \<^verbatim>\<open>mkdirSync\<close> with \<^verbatim>\<open>recursive\<close> leaves every file as it is,
  \<^verbatim>\<open>writeFileSync\<close> replaces the content of its target, \<^verbatim>\<open>renameSync\<close> moves the
  source over the target in one step.
\<close>

fun exec_op :: "'doc fsop \<Rightarrow> 'doc fs \<Rightarrow> 'doc fs" where
  "exec_op (Mkdir d) files = files"
| "exec_op (WriteFile p d) files = files(p \<mapsto> d)"
| "exec_op (Rename src dst) files =
     (case files src of None \<Rightarrow> files | Some d \<Rightarrow> (files(dst \<mapsto> d))(src := None))"

fun exec_ops :: "'doc fsop list \<Rightarrow> 'doc fs \<Rightarrow> 'doc fs" where
  "exec_ops [] files = files"
| "exec_ops (op # rest) files = exec_ops rest (exec_op op files)"

text \<open>
  The states a crash can leave behind while a list of operations runs: any number of
  operations completed, and a \<^verbatim>\<open>writeFileSync\<close> in progress may have left anything at
  all (or nothing) in its target.
\<close>

inductive crash :: "'doc fs \<Rightarrow> 'doc fsop list \<Rightarrow> 'doc fs \<Rightarrow> bool" where
  crash_here: "crash files os files"
| crash_later: "crash (exec_op op files) rest files' \<Longrightarrow> crash files (op # rest) files'"
| crash_torn: "crash files (WriteFile p d # rest) (files(p := c))"

subsection \<open>Vocabulary of the retention properties\<close>

text \<open>
  A record is expired at a cutoff when its \<^verbatim>\<open>createdAt\<close> parses and lies strictly
  before the cutoff.
\<close>

definition expired :: "'doc platform \<Rightarrow> int \<Rightarrow> json \<Rightarrow> bool" where
  "expired P cutoffMs item =
     (case toTimestamp P (get_prop item ''createdAt'') of
        Inr (Some t) \<Rightarrow> t < cutoffMs
      | _ \<Rightarrow> False)"

text \<open>Reading back what \<^verbatim>\<open>JSON.stringify\<close> wrote gives the value that was written.\<close>

definition codec_ok :: "'doc platform \<Rightarrow> bool" where
  "codec_ok P = (\<forall>v. JSON_parse P (JSON_stringify P v) = Some v)"

text \<open>The records of the history document, as \<^verbatim>\<open>prune\<close> reads them.\<close>

definition history_items :: "'doc platform \<Rightarrow> 'doc fs \<Rightarrow> json list" where
  "history_items P files =
     (case readJson P files historyFile (JArray []) of JArray xs \<Rightarrow> xs | _ \<Rightarrow> [])"

text \<open>The value \<^verbatim>\<open>resolveRetentionDays\<close> hands to \<^verbatim>\<open>String\<close>.\<close>

definition retention_setting :: "'doc platform \<Rightarrow> 'doc fs \<Rightarrow> json" where
  "retention_setting P files =
     nullish (get_prop (readJson P files settingsFile (JObject [])) ''historyRetentionDays'')
       (JNumber (NumInt DEFAULT_RETENTION_DAYS))"

text \<open>
  Every value the run converts with \<^verbatim>\<open>String\<close> has a string form: the retention
  setting and the \<^verbatim>\<open>createdAt\<close> of every record.
\<close>

definition convertible :: "'doc platform \<Rightarrow> 'doc fs \<Rightarrow> bool" where
  "convertible P files =
     (js_String (retention_setting P files) \<noteq> Inl TypeError
      \<and> list_all (\<lambda>item. String_of (get_prop item ''createdAt'') \<noteq> Inl TypeError)
           (history_items P files))"

subsection \<open>A sample installation\<close>

text \<open>
  A platform whose documents are the parsed values themselves (\<open>None\<close> is a file that
  is not JSON) and whose \<^verbatim>\<open>Date.parse\<close> knows three ISO timestamps, a history of four
  records and a retention of 30 days. With the clock at 2024-01-31T00:00:00Z the cutoff
  is 2024-01-01T00:00:00Z, the \<^verbatim>\<open>createdAt\<close> of record \<^verbatim>\<open>c\<close>.
\<close>

definition sample_dates :: "string \<Rightarrow> number" where
  "sample_dates s =
     (if s = ''2023-12-31T23:59:59.999Z'' then Finite 1704067199999
      else if s = ''2024-01-01T00:00:00.000Z'' then Finite 1704067200000
      else if s = ''2024-01-15T12:00:00.000Z'' then Finite 1705320000000
      else NaN)"

definition sample_platform :: "json option platform" where
  "sample_platform = \<lparr>JSON_parse = (\<lambda>raw. raw), JSON_stringify = Some, Date_parse = sample_dates\<rparr>"

definition sample_record :: "string \<Rightarrow> string \<Rightarrow> json" where
  "sample_record ident created =
     JObject [(''id'', JString ident), (''createdAt'', JString created),
              (''seconds'', JNumber (NumInt 3)), (''text'', JString ''hello'')]"

definition sample_history :: "json list" where
  "sample_history =
     [sample_record ''d'' ''2024-01-15T12:00:00.000Z'',
      sample_record ''c'' ''2024-01-01T00:00:00.000Z'',
      sample_record ''b'' ''not a date'',
      sample_record ''a'' ''2023-12-31T23:59:59.999Z'']"

definition sample_files :: "json option fs" where
  "sample_files =
     (\<lambda>p. None)(historyFile \<mapsto> Some (JArray sample_history),
               settingsFile \<mapsto> Some (JObject [(''historyRetentionDays'', JNumber (NumInt 30))]))"

definition sample_now :: int where
  "sample_now = 1706659200000"



text \<open>
  The sample installation with the settings document \<^verbatim>\<open>{"historyRetentionDays": 1e21}\<close>:
  the Number \<open>10^21\<close>, whose string form is \<^verbatim>\<open>1e+21\<close>.
\<close>

definition exponent_files :: "json option fs" where
  "exponent_files =
     sample_files(settingsFile \<mapsto> Some (JObject [(''historyRetentionDays'', JNumber (NumText ''1e+21''))]))"

section \<open>\<^verbatim>\<open>scripts/dev-backend.mjs\<close>\<close>

text \<open>
  The launcher is straight-line code: it builds the arguments, runs the prune script
  with \<^verbatim>\<open>spawnSync\<close> (which returns when the child has exited, with its exit status,
  or \<^verbatim>\<open>null\<close> when there is none), warns when the status is not 0, logs, and spawns
  the backend. The trace lists what it does, in order.
\<close>

datatype launch_event =
    PruneStarted
  | PruneExited "int option"
  | Warned
  | Logged
  | BackendSpawned "string list"

definition backend_args :: "string \<Rightarrow> string \<Rightarrow> bool \<Rightarrow> string list" where
  "backend_args backendHost backendPort useReload =
     [''-m'', ''uvicorn'', ''papagei_backend.server:app'', ''--host'', backendHost,
      ''--port'', backendPort] @ (if useReload then [''--reload''] else [])"

definition dev_backend :: "string \<Rightarrow> string \<Rightarrow> bool \<Rightarrow> int option \<Rightarrow> launch_event list" where
  "dev_backend backendHost backendPort useReload prune_status =
     [PruneStarted, PruneExited prune_status]
     @ (if prune_status \<noteq> Some 0 then [Warned] else [])
     @ [Logged, BackendSpawned (backend_args backendHost backendPort useReload)]"

section \<open>The browser client: \<^verbatim>\<open>checkHealth\<close> and \<^verbatim>\<open>start\<close>\<close>

text \<open>
  Two copies of the client derive a backend status, and they differ in
  \<^verbatim>\<open>checkHealth\<close>: the one with the \<^verbatim>\<open>error\<close> backend state reads the body's
  \<^verbatim>\<open>status\<close> field, and \<^verbatim>\<open>app/page.tsx\<close>, with the states \<^verbatim>\<open>offline\<close>, \<^verbatim>\<open>loading\<close>
  and \<^verbatim>\<open>ready\<close> only, reads the body's \<^verbatim>\<open>ready\<close>. \<^verbatim>\<open>start\<close> is the same text in both.
  The earliest copy of the page, which only records whether the backend answered and
  whose \<^verbatim>\<open>start\<close> polls nothing, derives no status and is not modelled.
\<close>

datatype Status = Idle | Recording | Transcribing | StatusError

datatype BackendState = Offline | Loading | Ready | BackendError

text \<open>
  What \<^verbatim>\<open>fetch\<close> gives: it rejects (with a message), or there is a response with a status
  code whose body either cannot be read as asked (\<open>Inl\<close>, with the message of the
  rejection) or is the value read (\<open>Inr\<close>).
\<close>

datatype 'b fetched = Rejected string | Response nat "string + 'b"

definition ok :: "nat \<Rightarrow> bool" where
  "ok code = (200 \<le> code \<and> code \<le> 299)"

text \<open>Truthiness of a value read from a JSON body.\<close>

fun truthy :: "json option \<Rightarrow> bool" where
  "truthy None = False"
| "truthy (Some JNull) = False"
| "truthy (Some (JBool b)) = b"
| "truthy (Some (JNumber (NumInt n))) = (n \<noteq> 0)"
| "truthy (Some (JNumber (NumText s))) = True"
| "truthy (Some (JString s)) = (s \<noteq> [])"
| "truthy (Some (JArray xs)) = True"
| "truthy (Some (JObject kvs)) = True"

text \<open>\<^verbatim>\<open>data.key\<close>: reading a property of \<^verbatim>\<open>null\<close> throws a TypeError.\<close>

definition member :: "json \<Rightarrow> string \<Rightarrow> string + json option" where
  "member data key = (if data = JNull then Inl ''TypeError'' else Inr (get_prop data key))"

text \<open>\<^verbatim>\<open>typeof v === "number" ? v : d\<close>.\<close>

fun number_or :: "json option \<Rightarrow> 'a \<Rightarrow> (jsnumber \<Rightarrow> 'a) \<Rightarrow> 'a" where
  "number_or (Some (JNumber n)) d f = f n"
| "number_or _ d f = d"

text \<open>
  \<^verbatim>\<open>Number.isFinite(v) ? Number(v) : 0\<close>: a Number of a JSON body is never \<^verbatim>\<open>NaN\<close>, but
  an overflowing numeral is read as \<^verbatim>\<open>Infinity\<close>.
\<close>

fun finite_or_zero :: "json option \<Rightarrow> jsnumber" where
  "finite_or_zero (Some (JNumber (NumInt n))) = NumInt n"
| "finite_or_zero (Some (JNumber (NumText s))) =
     (if s = ''Infinity'' \<or> s = ''-Infinity'' then NumInt 0 else NumText s)"
| "finite_or_zero _ = NumInt 0"

record health =
  ready :: bool
  status :: BackendState
  message :: json

text \<open>
  The React state the two functions set. \<^verbatim>\<open>app/page.tsx\<close> has only \<^verbatim>\<open>status\<close>,
  \<^verbatim>\<open>error\<close>, \<^verbatim>\<open>backendOk\<close> and \<^verbatim>\<open>backendState\<close> of these.
\<close>

record ui =
  ui_status :: Status
  ui_error :: "json option"
  backendOk :: "bool option"
  backendState :: BackendState
  backendMessage :: json
  backendPhases :: json
  backendPhaseIndex :: jsnumber
  backendStartedAt :: "jsnumber option"
  backendUptime :: "jsnumber option"
  backendPid :: "jsnumber option"
  backendProgress :: jsnumber

definition initial_ui :: ui where
  "initial_ui =
     \<lparr>ui_status = Idle, ui_error = None, backendOk = None, backendState = Offline,
      backendMessage = JString [], backendPhases = JArray [], backendPhaseIndex = NumInt 0,
      backendStartedAt = None, backendUptime = None, backendPid = None,
      backendProgress = NumInt 0\<rparr>"

subsection \<open>\<^verbatim>\<open>checkHealth\<close> with the \<^verbatim>\<open>error\<close> state\<close>

definition not_reachable :: "ui \<Rightarrow> ui \<times> health" where
  "not_reachable u =
     (u\<lparr>backendOk := Some False, backendState := Offline,
        backendMessage := JString ''Backend not reachable''\<rparr>,
      \<lparr>ready = False, status = Offline, message = JString ''Backend not reachable''\<rparr>)"

definition normalize :: "json \<Rightarrow> BackendState" where
  "normalize s =
     (if s = JString ''error'' then BackendError
      else if s = JString ''ready'' then Ready else Loading)"

text \<open>The body of the \<^verbatim>\<open>try\<close> block of \<^verbatim>\<open>checkHealth\<close>; \<open>Inl\<close> is a throw.\<close>

definition checkHealth_try :: "ui \<Rightarrow> json fetched \<Rightarrow> string + ui \<times> health" where
  "checkHealth_try u r =
     (case r of
        Rejected msg \<Rightarrow> Inl msg
      | Response code body \<Rightarrow>
          if \<not> ok code then Inr (not_reachable u)
          else (case body of
            Inl msg \<Rightarrow> Inl msg
          | Inr data \<Rightarrow>
              (case member data ''status'' of
                 Inl msg \<Rightarrow> Inl msg
               | Inr data_status \<Rightarrow>
                   (let st = nullish data_status
                               (JString (if truthy (get_prop data ''ready'') then ''ready'' else ''loading''));
                        normalized = normalize st;
                        msg = nullish (get_prop data ''message'')
                                (nullish (get_prop data ''error'') (JString []));
                        phases = nullish (get_prop data ''phases'') (JArray []);
                        phaseIndex = finite_or_zero (get_prop data ''phase_index'');
                        startedAt = number_or (get_prop data ''started_at'') None Some;
                        uptime = number_or (get_prop data ''uptime_seconds'') None Some;
                        pid = number_or (get_prop data ''pid'') None Some;
                        progress = number_or (get_prop data ''progress'') (NumInt 0) (\<lambda>n. n)
                    in Inr (u\<lparr>backendOk := Some True, backendState := normalized,
                               backendMessage := msg, backendPhases := phases,
                               backendPhaseIndex := phaseIndex, backendStartedAt := startedAt,
                               backendUptime := uptime, backendPid := pid,
                               backendProgress := progress\<rparr>,
                            \<lparr>ready = truthy (get_prop data ''ready''), status = normalized,
                             message = msg\<rparr>)))))"

text \<open>\<^verbatim>\<open>checkHealth\<close>: the \<^verbatim>\<open>catch\<close> block turns every throw into the offline result.\<close>

definition checkHealth :: "ui \<Rightarrow> json fetched \<Rightarrow> string + ui \<times> health" where
  "checkHealth u r = (case checkHealth_try u r of Inl e \<Rightarrow> Inr (not_reachable u) | Inr v \<Rightarrow> Inr v)"

subsection \<open>\<^verbatim>\<open>checkHealth\<close> of \<^verbatim>\<open>app/page.tsx\<close>\<close>

definition backend_offline :: "ui \<Rightarrow> ui \<times> health" where
  "backend_offline u =
     (u\<lparr>backendOk := Some False, backendState := Offline\<rparr>,
      \<lparr>ready = False, status = Offline, message = JString ''Backend offline''\<rparr>)"

text \<open>The body of its \<^verbatim>\<open>try\<close> block: a response that is not OK throws as well.\<close>

definition page_checkHealth_try :: "ui \<Rightarrow> json fetched \<Rightarrow> string + ui \<times> health" where
  "page_checkHealth_try u r =
     (case r of
        Rejected msg \<Rightarrow> Inl msg
      | Response code body \<Rightarrow>
          if \<not> ok code then Inl ''Backend not reachable''
          else (case body of
            Inl msg \<Rightarrow> Inl msg
          | Inr data \<Rightarrow>
              (case member data ''ready'' of
                 Inl msg \<Rightarrow> Inl msg
               | Inr data_ready \<Rightarrow>
                   (let rdy = truthy data_ready
                    in Inr (u\<lparr>backendOk := Some True,
                               backendState := (if rdy then Ready else Loading)\<rparr>,
                            \<lparr>ready = rdy, status = (if rdy then Ready else Loading),
                             message = JString (if rdy then ''Ready'' else ''Loading model...'')\<rparr>)))))"

definition page_checkHealth :: "ui \<Rightarrow> json fetched \<Rightarrow> string + ui \<times> health" where
  "page_checkHealth u r =
     (case page_checkHealth_try u r of Inl e \<Rightarrow> Inr (backend_offline u) | Inr v \<Rightarrow> Inr v)"

subsection \<open>\<^verbatim>\<open>start\<close>\<close>

datatype request = GET_health | POST_start

definition start_failed :: "ui \<Rightarrow> string \<Rightarrow> ui" where
  "start_failed u msg = u\<lparr>ui_status := StatusError, ui_error := Some (JString msg)\<rparr>"

text \<open>
  \<^verbatim>\<open>start\<close>, over the \<^verbatim>\<open>checkHealth\<close> of its copy and given what the two requests would
  return: the new state and the requests issued, in order.
\<close>

definition start_with ::
  "(ui \<Rightarrow> json fetched \<Rightarrow> string + ui \<times> health) \<Rightarrow> ui \<Rightarrow> json fetched \<Rightarrow> string fetched
     \<Rightarrow> ui \<times> request list" where
  "start_with check u health_response start_response =
     (let u0 = u\<lparr>ui_error := None\<rparr>
      in case check u0 health_response of
           Inl e \<Rightarrow> (start_failed u0 e, [GET_health])
         | Inr (u1, st) \<Rightarrow>
             if \<not> ready st
             then (u1\<lparr>ui_status := StatusError,
                      ui_error := Some (if status st = Loading
                                        then (if truthy (Some (message st)) then message st
                                              else JString ''Backend is loading the model. Please wait.'')
                                        else JString ''Backend is offline. Start it with: npm run dev:backend'')\<rparr>,
                   [GET_health])
             else (case start_response of
                 Rejected e \<Rightarrow> (start_failed u1 e, [GET_health, POST_start])
               | Response code body \<Rightarrow>
                   if \<not> ok code
                   then (case body of
                       Inl e \<Rightarrow> (start_failed u1 e, [GET_health, POST_start])
                     | Inr msg \<Rightarrow>
                         (start_failed u1
                            (if msg \<noteq> [] then msg else ''start failed ('' @ show_nat code @ '')''),
                          [GET_health, POST_start]))
                   else (u1\<lparr>ui_status := Recording\<rparr>, [GET_health, POST_start])))"

definition start :: "ui \<Rightarrow> json fetched \<Rightarrow> string fetched \<Rightarrow> ui \<times> request list" where
  "start = start_with checkHealth"

definition page_start :: "ui \<Rightarrow> json fetched \<Rightarrow> string fetched \<Rightarrow> ui \<times> request list" where
  "page_start = start_with page_checkHealth"

subsection \<open>Health bodies\<close>

text \<open>
  A body follows the health rule when its \<^verbatim>\<open>status\<close> field, if it has one, agrees with
  its \<^verbatim>\<open>ready\<close>: \<^verbatim>\<open>ready\<close> goes with a true \<^verbatim>\<open>ready\<close>, and \<^verbatim>\<open>error\<close>, \<^verbatim>\<open>loading\<close> and any
  other status with a false one.
\<close>

definition follows_health_rule :: "json \<Rightarrow> bool" where
  "follows_health_rule data =
     (case get_prop data ''status'' of
        None \<Rightarrow> True
      | Some s \<Rightarrow>
          if s = JNull then True
          else (s = JString ''ready'') = truthy (get_prop data ''ready''))"

text \<open>Sample bodies, with and without a \<^verbatim>\<open>status\<close> field.\<close>

definition ready_body :: json where
  "ready_body = JObject [(''ready'', JBool True)]"

definition loading_body :: json where
  "loading_body = JObject [(''ready'', JBool False), (''message'', JString ''Loading model'')]"

definition ready_status_body :: json where
  "ready_status_body = JObject [(''status'', JString ''ready''), (''ready'', JBool True)]"

definition error_body :: json where
  "error_body =
     JObject [(''status'', JString ''error''), (''ready'', JBool False),
              (''error'', JString ''model failed to load'')]"

section \<open>The session controller of the backend\<close>

text \<open>
  Modelled from the spec: the \<^verbatim>\<open>SessionState\<close> of the backend's
  SessionController (the Python backend is not among the sources):
  \<^verbatim>\<open>Idle\<close>, \<^verbatim>\<open>Recording\<close>,
  \<^verbatim>\<open>Transcribing\<close>, \<^verbatim>\<open>Error\<close>.
\<close>

datatype SessionState = Session_Idle | Session_Recording | Session_Transcribing | Session_Error

text \<open>
  Modelled from the spec: the outcomes of a call to the missing SessionController,
  success or one of the rejections of its error taxonomy.
\<close>

datatype outcome =
    Accepted
  | ModelNotReady
  | AlreadyRecording
  | NotRecording
  | AlreadyTranscribing

text \<open>
  Modelled from the spec: what reaches the missing SessionController.
  \<^verbatim>\<open>start()\<close> and \<^verbatim>\<open>stop()\<close> come from a
  caller (a number) and \<^verbatim>\<open>start()\<close> sees the monitor's
  \<^verbatim>\<open>LoadStatus.ready\<close>; the transcription engine finishes with
  success or failure. Each is one critical section, so concurrent callers are an
  interleaving of these.
\<close>

datatype call =
    StartCall nat bool
  | StopCall nat
  | EngineDone bool

text \<open>
  Modelled from the spec: the single process-wide state of the missing
  SessionController, together with every session started so far (its caller and the
  state that session is in).
\<close>

record controller =
  state :: SessionState
  sessions :: "(nat \<times> SessionState) list"

text \<open>
  Modelled from the spec: the missing SessionController at process start,
  \<^verbatim>\<open>Idle\<close> with no session.
\<close>

definition idle_controller :: controller where
  "idle_controller = \<lparr>state = Session_Idle, sessions = []\<rparr>"

text \<open>
  Modelled from the spec: a session of the missing SessionController moves on when the
  controller's transition concerns the state it is in.
\<close>

definition advance :: "SessionState \<Rightarrow> SessionState \<Rightarrow> nat \<times> SessionState \<Rightarrow> nat \<times> SessionState" where
  "advance from to s = (if snd s = from then (fst s, to) else s)"

text \<open>
  Modelled from the spec: the transition table of the missing SessionController
  (section 4.1). \<^verbatim>\<open>start()\<close> is rejected with
  \<^verbatim>\<open>ModelNotReady\<close> when the model is not ready and with
  \<^verbatim>\<open>AlreadyRecording\<close> in \<^verbatim>\<open>Recording\<close> or
  \<^verbatim>\<open>Transcribing\<close>, and otherwise opens a session in
  \<^verbatim>\<open>Recording\<close>; \<^verbatim>\<open>stop()\<close> is rejected
  with \<^verbatim>\<open>NotRecording\<close> in \<^verbatim>\<open>Idle\<close> or
  \<^verbatim>\<open>Error\<close> and with
  \<^verbatim>\<open>AlreadyTranscribing\<close> in
  \<^verbatim>\<open>Transcribing\<close>, and otherwise moves to
  \<^verbatim>\<open>Transcribing\<close>; the engine's answer moves
  \<^verbatim>\<open>Transcribing\<close> to \<^verbatim>\<open>Idle\<close> on success
  and to \<^verbatim>\<open>Error\<close> on failure.
\<close>

fun transition :: "controller \<Rightarrow> call \<Rightarrow> controller \<times> outcome" where
  "transition c (StartCall caller model_ready) =
     (if \<not> model_ready then (c, ModelNotReady)
      else if state c = Session_Recording \<or> state c = Session_Transcribing then (c, AlreadyRecording)
      else (c\<lparr>state := Session_Recording, sessions := (caller, Session_Recording) # sessions c\<rparr>, Accepted))"
| "transition c (StopCall caller) =
     (if state c = Session_Idle \<or> state c = Session_Error then (c, NotRecording)
      else if state c = Session_Transcribing then (c, AlreadyTranscribing)
      else (c\<lparr>state := Session_Transcribing,
               sessions := map (advance Session_Recording Session_Transcribing) (sessions c)\<rparr>, Accepted))"
| "transition c (EngineDone success) =
     (if state c = Session_Transcribing
      then (let final = (if success then Session_Idle else Session_Error)
            in (c\<lparr>state := final, sessions := map (advance Session_Transcribing final) (sessions c)\<rparr>,
                Accepted))
      else (c, Accepted))"

text \<open>
  Modelled from the spec: the missing SessionController after a sequence of calls,
  each applied in its own critical section.
\<close>

definition run :: "controller \<Rightarrow> call list \<Rightarrow> controller" where
  "run c calls = foldl (\<lambda>c e. fst (transition c e)) c calls"

text \<open>
  Modelled from the spec: the sessions of the missing SessionController that are in
  \<^verbatim>\<open>Recording\<close> or \<^verbatim>\<open>Transcribing\<close>.
\<close>

definition live :: "controller \<Rightarrow> (nat \<times> SessionState) list" where
  "live c = filter (\<lambda>s. snd s = Session_Recording \<or> snd s = Session_Transcribing) (sessions c)"

text \<open>
  Modelled from the spec: the invariant that ties the sessions to the state of the
  missing SessionController.
\<close>

definition consistent :: "controller \<Rightarrow> bool" where
  "consistent c =
     (if state c = Session_Recording \<or> state c = Session_Transcribing
      then length (live c) = 1 \<and> snd (hd (live c)) = state c
      else live c = [])"

section \<open>Properties\<close>

subsection \<open>Decimal numerals and \<^verbatim>\<open>parseInt\<close>\<close>

lemma digit_char_props:
  "d < 10 \<Longrightarrow> (of_char (digit_char d) :: nat) = 48 + d"
  by (simp add: digit_char_def)

lemma show_nat_digits: "c \<in> set (show_nat n) \<Longrightarrow> is_digit c"
proof (induction n rule: show_nat.induct)
  case (1 n)
  show ?case
  proof (cases "n < 10")
    case True
    with 1(2) show ?thesis
      by (simp add: show_nat.simps[of n] is_digit_def digit_char_props)
  next
    case False
    with 1 show ?thesis
      by (auto simp: show_nat.simps[of n] is_digit_def digit_char_props)
  qed
qed

lemma show_nat_nonempty: "show_nat n \<noteq> []"
  by (subst show_nat.simps) simp

lemma digits_value_snoc:
  "digits_value (ds @ [c]) = digits_value ds * 10 + (of_char c - 48)"
  by (simp add: digits_value_def)

lemma digits_value_show_nat: "digits_value (show_nat n) = n"
proof (induction n rule: show_nat.induct)
  case (1 n)
  show ?case
  proof (cases "n < 10")
    case True
    then show ?thesis
      by (simp add: show_nat.simps[of n] digits_value_def digit_char_props)
  next
    case False
    with 1 show ?thesis
      by (simp add: show_nat.simps[of n] digits_value_snoc digit_char_props)
  qed
qed

lemma is_digit_not_space: "is_digit c \<Longrightarrow> \<not> is_space c"
  by (auto simp: is_digit_def is_space_def)

lemma is_digit_not_sign: "is_digit c \<Longrightarrow> c \<noteq> CHR ''-'' \<and> c \<noteq> CHR ''+''"
  by (auto simp: is_digit_def)

lemma parseInt_digits:
  assumes "ds \<noteq> []" "\<forall>c\<in>set ds. is_digit c"
  shows "parseInt ds = Finite (int (digits_value ds))"
proof -
  from assms obtain c cs where ds: "ds = c # cs" by (cases ds) auto
  with assms have c: "is_digit c" by simp
  have t: "dropWhile is_space ds = ds" using ds c by (simp add: is_digit_not_space)
  have z: "takeWhile is_digit ds = ds" using assms(2) by (simp add: takeWhile_eq_all_conv)
  have h: "hd ds \<noteq> CHR ''-''" "hd ds \<noteq> CHR ''+''"
    using ds is_digit_not_sign[OF c] by simp_all
  show ?thesis
    using assms(1) h by (simp add: parseInt_def Let_def t z)
qed

lemma parseInt_minus_digits:
  assumes "ds \<noteq> []" "\<forall>c\<in>set ds. is_digit c"
  shows "parseInt (CHR ''-'' # ds) = Finite (- int (digits_value ds))"
proof -
  have sp: "\<not> is_space CHR ''-''" by (simp add: is_space_def)
  have z: "takeWhile is_digit ds = ds" using assms(2) by (simp add: takeWhile_eq_all_conv)
  show ?thesis using sp assms(1) by (simp add: parseInt_def Let_def z)
qed

lemma parseInt_show_int: "parseInt (show_int n) = Finite n"
proof (cases "n < 0")
  case True
  then show ?thesis
    using parseInt_minus_digits[of "show_nat (nat (- n))"] show_nat_digits show_nat_nonempty
    by (auto simp: show_int_def digits_value_show_nat)
next
  case False
  then show ?thesis
    using parseInt_digits[of "show_nat (nat n)"] show_nat_digits show_nat_nonempty
    by (auto simp: show_int_def digits_value_show_nat)
qed

subsection \<open>Throws of \<^verbatim>\<open>String\<close>\<close>

lemma js_error_TypeError [simp]: "(e :: js_error) = TypeError"
  by (cases e) simp

lemma toTimestamp_returns:
  "String_of v \<noteq> Inl TypeError \<Longrightarrow> \<exists>t. toTimestamp P v = Inr t"
  by (cases "String_of v") (auto simp: toTimestamp_def Let_def)

subsection \<open>The filter\<close>

lemma prune_filter_returns:
  "list_all (\<lambda>item. String_of (get_prop item ''createdAt'') \<noteq> Inl TypeError) xs \<Longrightarrow>
     prune_filter P c xs
       = Inr (filter (\<lambda>item. \<not> expired P c item) xs, length (filter (expired P c) xs))"
proof (induction xs)
  case Nil
  then show ?case by simp
next
  case (Cons item rest)
  then obtain t where t: "toTimestamp P (get_prop item ''createdAt'') = Inr t"
    using toTimestamp_returns[of "get_prop item ''createdAt''" P] by auto
  from Cons have rest: "prune_filter P c rest
       = Inr (filter (\<lambda>item. \<not> expired P c item) rest, length (filter (expired P c) rest))"
    by simp
  have e: "expired P c item \<longleftrightarrow> (case t of None \<Rightarrow> False | Some x \<Rightarrow> x < c)"
    by (simp add: expired_def t split: option.splits)
  show ?case
    by (cases t) (simp_all add: t rest e)
qed

lemma prune_filter_throws:
  "\<not> list_all (\<lambda>item. String_of (get_prop item ''createdAt'') \<noteq> Inl TypeError) xs \<Longrightarrow>
     prune_filter P c xs = Inl TypeError"
proof (induction xs)
  case Nil
  then show ?case by simp
next
  case (Cons item rest)
  show ?case
  proof (cases "String_of (get_prop item ''createdAt'') = Inl TypeError")
    case True
    then have "toTimestamp P (get_prop item ''createdAt'') = Inl TypeError"
      by (simp add: toTimestamp_def)
    then show ?thesis by simp
  next
    case False
    with Cons have "prune_filter P c rest = Inl TypeError" by simp
    then show ?thesis by (simp split: sum.splits)
  qed
qed

lemma prune_filter_result:
  assumes "prune_filter P c xs = Inr (kept, removed)"
  shows "kept = filter (\<lambda>item. \<not> expired P c item) xs"
    and "removed = length (filter (expired P c) xs)"
    and "list_all (\<lambda>item. String_of (get_prop item ''createdAt'') \<noteq> Inl TypeError) xs"
proof -
  show 3: "list_all (\<lambda>item. String_of (get_prop item ''createdAt'') \<noteq> Inl TypeError) xs"
    using assms prune_filter_throws[of xs P c] by auto
  from prune_filter_returns[OF 3, of P c] assms
  show "kept = filter (\<lambda>item. \<not> expired P c item) xs"
    and "removed = length (filter (expired P c) xs)"
    by simp_all
qed

lemma filter_none_expired:
  "length (filter (expired P c) xs) = 0 \<Longrightarrow> filter (\<lambda>item. \<not> expired P c item) xs = xs"
  by (induction xs) (auto split: if_splits)


lemma unparseable_not_expired:
  "toTimestamp P (get_prop item ''createdAt'') = Inr None \<Longrightarrow> \<not> expired P c item"
  by (simp add: expired_def)



subsection \<open>The retention setting\<close>

lemma resolveRetentionDays_parse:
  "resolveRetentionDays P files =
     (case js_String (retention_setting P files) of
        Inl e \<Rightarrow> Inl e
      | Inr s \<Rightarrow> (case parseInt s of
                    NaN \<Rightarrow> Inr 60
                  | Finite n \<Rightarrow> Inr (if 1 \<le> n \<and> n \<le> 3650 then n else 60)))"
  by (auto simp: resolveRetentionDays_def retention_setting_def DEFAULT_RETENTION_DAYS_def
      MAX_RETENTION_DAYS_def Let_def split: sum.splits number.splits)


lemma resolveRetentionDays_returns:
  "js_String (retention_setting P files) \<noteq> Inl TypeError \<Longrightarrow>
     \<exists>days. resolveRetentionDays P files = Inr days"
  by (cases "js_String (retention_setting P files)")
     (auto simp: resolveRetentionDays_parse split: number.splits)

lemma resolveRetentionDays_throws:
  "js_String (retention_setting P files) = Inl TypeError \<Longrightarrow>
     resolveRetentionDays P files = Inl TypeError"
  by (simp add: resolveRetentionDays_parse)

lemma resolveRetentionDays_integer:
  assumes "get_prop (readJson P files settingsFile (JObject [])) ''historyRetentionDays''
             = Some (JNumber (NumInt n))"
  shows "resolveRetentionDays P files = Inr (if 1 \<le> n \<and> n \<le> 3650 then n else 60)"
  using assms by (simp add: resolveRetentionDays_parse retention_setting_def parseInt_show_int)


subsection \<open>What the script writes and returns\<close>

lemma history_items_missing:
  "\<not> existsSync files historyFile \<Longrightarrow> history_items P files = []"
  by (simp add: history_items_def readJson_def existsSync_def)

lemma prune_script_ops:
  "ops (prune_script P dryRun now files) =
     (case resolveRetentionDays P files of
        Inl e \<Rightarrow> []
      | Inr days \<Rightarrow>
          (case prune_filter P (now - days * 24 * 60 * 60 * 1000) (history_items P files) of
             Inl e \<Rightarrow> []
           | Inr (kept, removed) \<Rightarrow>
               if \<not> dryRun \<and> existsSync files historyFile \<and> 0 < removed
               then [Mkdir historyDir,
                     WriteFile tempPath (JSON_stringify P (JArray kept)),
                     Rename tempPath historyFile]
               else []))"
  by (simp add: prune_script_def prune_def history_items_def Let_def
      split: json.splits prod.splits sum.splits)

lemma prune_script_exitCode:
  "exitCode (prune_script P dryRun now files) =
     (if \<not> existsSync files historyFile then 0
      else case readJson P files historyFile (JArray []) of
        JArray history \<Rightarrow>
          (case resolveRetentionDays P files of
             Inl e \<Rightarrow> 1
           | Inr days \<Rightarrow>
               (case prune_filter P (now - days * 24 * 60 * 60 * 1000) history of
                  Inl e \<Rightarrow> 1 | Inr r \<Rightarrow> 0))
      | _ \<Rightarrow> 1)"
  by (simp add: prune_script_def prune_def Let_def
      split: json.splits prod.splits sum.splits)

lemma prune_script_keeps_settings:
  "exec_ops (ops (prune_script P dryRun now files)) files settingsFile = files settingsFile"
  by (simp add: prune_script_ops split: sum.splits prod.splits)

lemma prune_script_aborts:
  assumes "readJson P files historyFile (JArray []) = JArray history"
    and "existsSync files historyFile" and "\<not> convertible P files"
  shows "exitCode (prune_script P dryRun now files) = 1 \<and> ops (prune_script P dryRun now files) = []"
proof (cases "js_String (retention_setting P files) = Inl TypeError")
  case True
  then show ?thesis
    using assms(1,2)
    by (simp add: prune_script_exitCode prune_script_ops resolveRetentionDays_throws)
next
  case False
  then obtain days where d: "resolveRetentionDays P files = Inr days"
    using resolveRetentionDays_returns by blast
  from False assms(3)
  have "\<not> list_all (\<lambda>item. String_of (get_prop item ''createdAt'') \<noteq> Inl TypeError)
            (history_items P files)"
    by (simp add: convertible_def)
  from prune_filter_throws[OF this, of P "now - days * 24 * 60 * 60 * 1000"]
  show ?thesis
    using assms(1,2) d
    by (simp add: prune_script_exitCode prune_script_ops history_items_def)
qed

lemma history_items_after_prune:
  assumes "codec_ok P" "\<not> dryRun"
    and "resolveRetentionDays P files = Inr days"
    and "prune_filter P (now - days * 24 * 60 * 60 * 1000) (history_items P files) = Inr (kept, removed)"
  shows "history_items P (exec_ops (ops (prune_script P dryRun now files)) files) = kept"
proof -
  let ?h = "history_items P files"
  let ?after = "exec_ops (ops (prune_script P dryRun now files)) files"
  note res = prune_filter_result[OF assms(4)]
  show ?thesis
  proof (cases "existsSync files historyFile \<and> 0 < removed")
    case True
    with assms have "?after historyFile = Some (JSON_stringify P (JArray kept))"
      by (simp add: prune_script_ops)
    with assms(1) show ?thesis
      by (simp add: history_items_def readJson_def codec_ok_def)
  next
    case False
    with assms have "ops (prune_script P dryRun now files) = []"
      by (auto simp: prune_script_ops)
    then have same: "history_items P ?after = ?h" by simp
    from False have "kept = ?h"
      using res(1,2) by (auto simp: history_items_missing intro: filter_none_expired)
    with same show ?thesis by simp
  qed
qed

subsection \<open>The sample installation\<close>

lemma sample_codec_ok: "codec_ok sample_platform"
  by (simp add: codec_ok_def sample_platform_def)

lemma sample_setting:
  "get_prop (readJson sample_platform sample_files settingsFile (JObject [])) ''historyRetentionDays''
     = Some (JNumber (NumInt 30))"
  by (simp add: readJson_def sample_platform_def sample_files_def)

lemma sample_retention: "resolveRetentionDays sample_platform sample_files = Inr 30"
  by (simp add: resolveRetentionDays_integer[OF sample_setting])

lemma sample_items: "history_items sample_platform sample_files = sample_history"
  by (simp add: history_items_def readJson_def sample_platform_def sample_files_def)

lemma sample_exists: "existsSync sample_files historyFile"
  by (simp add: existsSync_def sample_files_def)

lemma sample_timestamps:
  "toTimestamp sample_platform (get_prop (sample_record i ''2024-01-15T12:00:00.000Z'') ''createdAt'') = Inr (Some 1705320000000)"
  "toTimestamp sample_platform (get_prop (sample_record i ''2024-01-01T00:00:00.000Z'') ''createdAt'') = Inr (Some 1704067200000)"
  "toTimestamp sample_platform (get_prop (sample_record i ''not a date'') ''createdAt'') = Inr None"
  "toTimestamp sample_platform (get_prop (sample_record i ''2023-12-31T23:59:59.999Z'') ''createdAt'') = Inr (Some 1704067199999)"
  by (simp_all add: toTimestamp_def sample_record_def String_of_def sample_platform_def sample_dates_def)



subsection \<open>Retention pruning\<close>



text \<open>
  C4. A record whose \<^verbatim>\<open>createdAt\<close> does not parse is kept by the filter at every
  cutoff, hence for every retention setting and clock, whenever the filter returns; it
  fails to return exactly when the \<^verbatim>\<open>createdAt\<close> of some record has no string form,
  and then the run removes nothing. After any run of the script, dry or not, the history
  document holds the same unparseable records as before, in the same order.
\<close>

theorem prune_keeps_unparseable:
  assumes "codec_ok P"
  shows "(\<forall>kept removed. prune_filter P cutoffMs history = Inr (kept, removed)
            \<longrightarrow> (\<forall>item \<in> set history. toTimestamp P (get_prop item ''createdAt'') = Inr None
                   \<longrightarrow> item \<in> set kept))
       \<and> (prune_filter P cutoffMs history = Inl TypeError
            \<longleftrightarrow> \<not> list_all (\<lambda>item. String_of (get_prop item ''createdAt'') \<noteq> Inl TypeError) history)
       \<and> filter (\<lambda>item. toTimestamp P (get_prop item ''createdAt'') = Inr None)
            (history_items P (exec_ops (ops (prune_script P dryRun now files)) files))
         = filter (\<lambda>item. toTimestamp P (get_prop item ''createdAt'') = Inr None)
            (history_items P files)"
proof -
  have keep: "filter (\<lambda>item. toTimestamp P (get_prop item ''createdAt'') = Inr None)
                (filter (\<lambda>item. \<not> expired P c item) xs)
              = filter (\<lambda>item. toTimestamp P (get_prop item ''createdAt'') = Inr None) xs" for c xs
    by (induction xs) (auto simp: unparseable_not_expired)
  have a: "\<forall>kept removed. prune_filter P cutoffMs history = Inr (kept, removed)
            \<longrightarrow> (\<forall>item \<in> set history. toTimestamp P (get_prop item ''createdAt'') = Inr None
                   \<longrightarrow> item \<in> set kept)"
    by (auto dest!: prune_filter_result(1) simp: unparseable_not_expired)
  have t: "prune_filter P cutoffMs history = Inl TypeError
            \<longleftrightarrow> \<not> list_all (\<lambda>item. String_of (get_prop item ''createdAt'') \<noteq> Inl TypeError) history"
    using prune_filter_throws[of history P cutoffMs] prune_filter_returns[of history P cutoffMs]
    by auto
  let ?after = "exec_ops (ops (prune_script P dryRun now files)) files"
  have b: "filter (\<lambda>item. toTimestamp P (get_prop item ''createdAt'') = Inr None)
            (history_items P ?after)
         = filter (\<lambda>item. toTimestamp P (get_prop item ''createdAt'') = Inr None)
            (history_items P files)"
  proof (cases "ops (prune_script P dryRun now files) = []")
    case True
    then show ?thesis by simp
  next
    case False
    then obtain days kept removed where
      d: "resolveRetentionDays P files = Inr days"
      and f: "prune_filter P (now - days * 24 * 60 * 60 * 1000) (history_items P files) = Inr (kept, removed)"
      and n: "\<not> dryRun"
      by (auto simp: prune_script_ops split: sum.splits prod.splits if_splits)
    from history_items_after_prune[OF assms n d f] prune_filter_result(1)[OF f]
    show ?thesis by (simp add: keep del: filter_filter)
  qed
  from a t b show ?thesis by blast
qed

theorem prune_keeps_unparseable_witness:
  "toTimestamp sample_platform (get_prop (sample_record ''b'' ''not a date'') ''createdAt'') = Inr None \<and>
   sample_record ''b'' ''not a date'' \<in> set sample_history \<and>
   prune_filter sample_platform 1704067200000 sample_history
     = Inr ([sample_record ''d'' ''2024-01-15T12:00:00.000Z'',
             sample_record ''c'' ''2024-01-01T00:00:00.000Z'',
             sample_record ''b'' ''not a date''], 1) \<and>
   filter (\<lambda>item. toTimestamp sample_platform (get_prop item ''createdAt'') = Inr None)
     (history_items sample_platform
        (exec_ops (ops (prune_script sample_platform False sample_now sample_files)) sample_files))
     = [sample_record ''b'' ''not a date'']"
  using prune_keeps_unparseable [OF sample_codec_ok, of 1704067200000 sample_history False sample_now sample_files]
  by (simp add: sample_items sample_history_def sample_timestamps)

subsection \<open>Crash states of the write path\<close>

inductive_cases crash_NilE: "crash f [] f'"

inductive_cases crash_ConsE: "crash f (op # rest) f'"

lemma crash_write_rename:
  fixes files :: "'doc fs"
  assumes "crash files [Mkdir dir, WriteFile tempPath d, Rename tempPath historyFile] files'"
  shows "files' historyFile = files historyFile \<or> files' historyFile = Some d"
proof -
  have rename: "f' historyFile = f historyFile \<or> f' historyFile = f tempPath"
    if "crash f [Rename tempPath historyFile] f'" for f f' :: "'doc fs"
    using that by (auto elim!: crash_ConsE crash_NilE split: option.splits)
  have wr: "f' historyFile = f historyFile \<or> f' historyFile = Some d"
    if "crash f [WriteFile tempPath d, Rename tempPath historyFile] f'" for f f' :: "'doc fs"
    using that
  proof (rule crash_ConsE)
    assume "f' = f" then show ?thesis by simp
  next
    assume "crash (exec_op (WriteFile tempPath d) f) [Rename tempPath historyFile] f'"
    from rename[OF this] show ?thesis by simp
  next
    fix p c and d' :: 'doc assume "WriteFile tempPath d = WriteFile p d'" "f' = f(p := c)"
    then show ?thesis by simp
  qed
  from assms show ?thesis
  proof (rule crash_ConsE)
    assume "files' = files" then show ?thesis by simp
  next
    assume "crash (exec_op (Mkdir dir) files) [WriteFile tempPath d, Rename tempPath historyFile] files'"
    then show ?thesis using wr by simp
  next
    fix p and d' :: 'doc assume "Mkdir dir = WriteFile p d'"
    then show ?thesis by simp
  qed
qed

lemma sample_stringify: "JSON_stringify sample_platform v = Some v"
  by (simp add: sample_platform_def)

lemma sample_filter:
  "prune_filter sample_platform 1704067200000 sample_history
     = Inr ([sample_record ''d'' ''2024-01-15T12:00:00.000Z'',
             sample_record ''c'' ''2024-01-01T00:00:00.000Z'',
             sample_record ''b'' ''not a date''], 1)"
  by (simp add: sample_history_def sample_timestamps)

lemma sample_ops:
  "ops (prune_script sample_platform False sample_now sample_files)
     = [Mkdir historyDir,
        WriteFile tempPath (Some (JArray [sample_record ''d'' ''2024-01-15T12:00:00.000Z'',
                                          sample_record ''c'' ''2024-01-01T00:00:00.000Z'',
                                          sample_record ''b'' ''not a date''])),
        Rename tempPath historyFile]"
  by (simp add: prune_script_ops sample_retention sample_now_def sample_items sample_filter
      sample_exists sample_stringify)

text \<open>
  C3. Every run of the script that touches the file system performs exactly three
  operations: it makes sure the directory exists, writes the complete kept collection
  to \<^verbatim>\<open>history.json.tmp\<close>, and renames that file over \<^verbatim>\<open>history.json\<close>. No operation
  writes into \<^verbatim>\<open>history.json\<close> itself. After the run the document is the new
  collection, and in every state a crash can leave (any prefix of the operations done,
  the write torn at any point, the rename being one step) the document is either the
  old one, untouched, or the complete new one.
\<close>

theorem prune_writes_by_atomic_replace:
  assumes "ops (prune_script P dryRun now files) \<noteq> []"
  shows "\<exists>days kept removed.
           resolveRetentionDays P files = Inr days
         \<and> prune_filter P (now - days * 24 * 60 * 60 * 1000) (history_items P files)
             = Inr (kept, removed)
         \<and> ops (prune_script P dryRun now files)
             = [Mkdir historyDir,
                WriteFile tempPath (JSON_stringify P (JArray kept)),
                Rename tempPath historyFile]
         \<and> (\<forall>d. WriteFile historyFile d \<notin> set (ops (prune_script P dryRun now files)))
         \<and> exec_ops (ops (prune_script P dryRun now files)) files historyFile
             = Some (JSON_stringify P (JArray kept))
         \<and> (\<forall>files'. crash files (ops (prune_script P dryRun now files)) files'
               \<longrightarrow> files' historyFile = files historyFile
                 \<or> files' historyFile = Some (JSON_stringify P (JArray kept)))"
proof -
  define os where "os = ops (prune_script P dryRun now files)"
  from assms obtain days kept removed where
    d: "resolveRetentionDays P files = Inr days"
    and f: "prune_filter P (now - days * 24 * 60 * 60 * 1000) (history_items P files) = Inr (kept, removed)"
    and c: "\<not> dryRun \<and> existsSync files historyFile \<and> 0 < removed"
    by (auto simp: prune_script_ops split: sum.splits prod.splits if_splits)
  define new where "new = JSON_stringify P (JArray kept)"
  have o: "os = [Mkdir historyDir, WriteFile tempPath new, Rename tempPath historyFile]"
    unfolding os_def new_def using d f c by (simp add: prune_script_ops)
  have w: "\<forall>d. WriteFile historyFile d \<notin> set os"
    unfolding o by simp
  have e: "exec_ops os files historyFile = Some new"
    unfolding o by simp
  have cr: "\<forall>files'. crash files os files'
          \<longrightarrow> files' historyFile = files historyFile \<or> files' historyFile = Some new"
  proof (intro allI impI)
    fix files' assume "crash files os files'"
    then have "crash files [Mkdir historyDir, WriteFile tempPath new, Rename tempPath historyFile] files'"
      unfolding o .
    then show "files' historyFile = files historyFile \<or> files' historyFile = Some new"
      by (rule crash_write_rename)
  qed
  have "resolveRetentionDays P files = Inr days
      \<and> prune_filter P (now - days * 24 * 60 * 60 * 1000) (history_items P files) = Inr (kept, removed)
      \<and> os = [Mkdir historyDir, WriteFile tempPath (JSON_stringify P (JArray kept)), Rename tempPath historyFile]
      \<and> (\<forall>d. WriteFile historyFile d \<notin> set os)
      \<and> exec_ops os files historyFile = Some (JSON_stringify P (JArray kept))
      \<and> (\<forall>files'. crash files os files'
            \<longrightarrow> files' historyFile = files historyFile
              \<or> files' historyFile = Some (JSON_stringify P (JArray kept)))"
    using d f o w e cr unfolding new_def by blast
  then show ?thesis unfolding os_def by blast
qed

theorem prune_writes_by_atomic_replace_witness:
  "ops (prune_script sample_platform False sample_now sample_files) \<noteq> [] \<and>
   crash sample_files (ops (prune_script sample_platform False sample_now sample_files))
     (sample_files(tempPath \<mapsto> None)) \<and>
   (sample_files(tempPath \<mapsto> None)) historyFile = sample_files historyFile \<and>
   exec_ops (ops (prune_script sample_platform False sample_now sample_files)) sample_files historyFile
     = Some (Some (JArray [sample_record ''d'' ''2024-01-15T12:00:00.000Z'',
                           sample_record ''c'' ''2024-01-01T00:00:00.000Z'',
                           sample_record ''b'' ''not a date'']))"
proof -
  have ne: "ops (prune_script sample_platform False sample_now sample_files) \<noteq> []"
    by (simp add: sample_ops)
  have cr: "crash sample_files (ops (prune_script sample_platform False sample_now sample_files))
              (sample_files(tempPath \<mapsto> None))"
    unfolding sample_ops
    by (rule crash_later) (simp, rule crash_torn)
  from prune_writes_by_atomic_replace[OF ne] obtain days kept removed where
    "resolveRetentionDays sample_platform sample_files = Inr days"
    "prune_filter sample_platform (sample_now - days * 24 * 60 * 60 * 1000)
       (history_items sample_platform sample_files) = Inr (kept, removed)"
    "exec_ops (ops (prune_script sample_platform False sample_now sample_files)) sample_files historyFile
          = Some (JSON_stringify sample_platform (JArray kept))"
    by blast
  then have ex: "exec_ops (ops (prune_script sample_platform False sample_now sample_files)) sample_files historyFile
     = Some (Some (JArray [sample_record ''d'' ''2024-01-15T12:00:00.000Z'',
                           sample_record ''c'' ''2024-01-01T00:00:00.000Z'',
                           sample_record ''b'' ''not a date'']))"
    by (simp add: sample_retention sample_now_def sample_items sample_filter sample_stringify)
  from ne cr ex show ?thesis by simp
qed

subsection \<open>A second run\<close>

lemma prune_second_run:
  assumes "codec_ok P"
    and "\<forall>days. resolveRetentionDays P files = Inr days \<longrightarrow>
           (\<forall>item \<in> set (history_items P files).
              \<not> expired P (now - days * 24 * 60 * 60 * 1000) item
                \<longrightarrow> \<not> expired P (now' - days * 24 * 60 * 60 * 1000) item)"
  shows "ops (prune_script P dryRun now' (exec_ops (ops (prune_script P dryRun now files)) files)) = []"
proof (cases "ops (prune_script P dryRun now files) = []")
  case True
  let ?files1 = "exec_ops (ops (prune_script P dryRun now files)) files"
  from True have same: "?files1 = files" by simp
  show ?thesis
  proof (cases "\<exists>days kept removed. resolveRetentionDays P files = Inr days \<and>
                  prune_filter P (now - days * 24 * 60 * 60 * 1000) (history_items P files)
                    = Inr (kept, removed)")
    case False
    then have "\<forall>days. resolveRetentionDays P files = Inr days \<longrightarrow>
                 \<not> list_all (\<lambda>item. String_of (get_prop item ''createdAt'') \<noteq> Inl TypeError)
                      (history_items P files)"
      using prune_filter_returns[of "history_items P files" P] by auto
    then show ?thesis
      unfolding same
      by (auto simp: prune_script_ops prune_filter_throws split: sum.splits prod.splits)
  next
    case ex: True
    then obtain days kept removed where
      d: "resolveRetentionDays P files = Inr days"
      and f: "prune_filter P (now - days * 24 * 60 * 60 * 1000) (history_items P files) = Inr (kept, removed)"
      by blast
    note res = prune_filter_result[OF f]
    from True d f have c: "dryRun \<or> \<not> existsSync files historyFile \<or> removed = 0"
      by (auto simp: prune_script_ops split: if_splits)
    have f': "prune_filter P (now' - days * 24 * 60 * 60 * 1000) (history_items P files)
                = Inr (filter (\<lambda>item. \<not> expired P (now' - days * 24 * 60 * 60 * 1000) item) (history_items P files),
                       length (filter (expired P (now' - days * 24 * 60 * 60 * 1000)) (history_items P files)))"
      using prune_filter_returns[OF res(3)] .
    show ?thesis
    proof (cases "dryRun \<or> \<not> existsSync files historyFile")
      case True
      then show ?thesis using d f' unfolding same by (auto simp: prune_script_ops)
    next
      case False
      with c have "removed = 0" by simp
      with res(2) have "filter (expired P (now - days * 24 * 60 * 60 * 1000)) (history_items P files) = []"
        by simp
      with assms(2) d have "filter (expired P (now' - days * 24 * 60 * 60 * 1000)) (history_items P files) = []"
        by (auto simp: filter_empty_conv)
      then show ?thesis using d f' unfolding same by (auto simp: prune_script_ops)
    qed
  qed
next
  case False
  let ?files1 = "exec_ops (ops (prune_script P dryRun now files)) files"
  from False obtain days kept removed where
    d: "resolveRetentionDays P files = Inr days"
    and f: "prune_filter P (now - days * 24 * 60 * 60 * 1000) (history_items P files) = Inr (kept, removed)"
    and n: "\<not> dryRun"
    by (auto simp: prune_script_ops split: sum.splits prod.splits if_splits)
  note res = prune_filter_result[OF f]
  have days: "resolveRetentionDays P ?files1 = resolveRetentionDays P files"
    by (simp add: resolveRetentionDays_def readJson_def prune_script_keeps_settings)
  have items: "history_items P ?files1 = kept"
    using history_items_after_prune[OF assms(1) n d f] .
  have conv: "list_all (\<lambda>item. String_of (get_prop item ''createdAt'') \<noteq> Inl TypeError) kept"
    using res(1,3) by (simp add: list_all_iff)
  have "filter (expired P (now' - days * 24 * 60 * 60 * 1000)) kept = []"
    using assms(2) d res(1) by (auto simp: filter_empty_conv)
  then have "prune_filter P (now' - days * 24 * 60 * 60 * 1000) kept
               = Inr (filter (\<lambda>item. \<not> expired P (now' - days * 24 * 60 * 60 * 1000) item) kept, 0)"
    using prune_filter_returns[OF conv, of P "now' - days * 24 * 60 * 60 * 1000"] by simp
  then show ?thesis
    using d by (subst prune_script_ops) (auto simp: days items)
qed

text \<open>
  C5. Running the script again right after a run, with the same flags, does nothing:
  if no record that the first run's cutoff spared is expired at the second run's cutoff,
  the second run performs no file operation, so the file system (the history document
  included) is exactly what the first run left. When the clock has not advanced this
  needs no assumption on the records (last two conjuncts).
\<close>

theorem prune_idempotent:
  assumes "codec_ok P"
    and "\<forall>days. resolveRetentionDays P files = Inr days \<longrightarrow>
           (\<forall>item \<in> set (history_items P files).
              \<not> expired P (now - days * 24 * 60 * 60 * 1000) item
                \<longrightarrow> \<not> expired P (now' - days * 24 * 60 * 60 * 1000) item)"
  shows "(let files1 = exec_ops (ops (prune_script P dryRun now files)) files;
              again = prune_script P dryRun now' files1;
              same_clock = prune_script P dryRun now files1
          in ops again = [] \<and> exec_ops (ops again) files1 = files1
           \<and> ops same_clock = [] \<and> exec_ops (ops same_clock) files1 = files1)"
proof -
  have a: "ops (prune_script P dryRun now' (exec_ops (ops (prune_script P dryRun now files)) files)) = []"
    using prune_second_run[OF assms] .
  have b: "ops (prune_script P dryRun now (exec_ops (ops (prune_script P dryRun now files)) files)) = []"
    using prune_second_run[OF assms(1), of files now now dryRun] by simp
  show ?thesis by (simp add: Let_def a b)
qed

lemma sample_expired_later:
  "\<not> expired sample_platform 1704067205000 (sample_record i ''2024-01-15T12:00:00.000Z'')"
  "expired sample_platform 1704067201000 (sample_record i ''2024-01-01T00:00:00.000Z'')"
  "\<not> expired sample_platform 1704067205000 (sample_record i ''not a date'')"
  "expired sample_platform 1704067201000 (sample_record i ''2023-12-31T23:59:59.999Z'')"
  by (simp_all add: expired_def sample_timestamps)

theorem prune_idempotent_witness:
  "codec_ok sample_platform \<and>
   resolveRetentionDays sample_platform sample_files = Inr 30 \<and>
   filter (expired sample_platform (sample_now + 5000 - 30 * 24 * 60 * 60 * 1000))
     (filter (\<lambda>item. \<not> expired sample_platform (sample_now + 1000 - 30 * 24 * 60 * 60 * 1000) item)
        (history_items sample_platform sample_files)) = [] \<and>
   ops (prune_script sample_platform False (sample_now + 1000) sample_files) \<noteq> [] \<and>
   ops (prune_script sample_platform False (sample_now + 5000)
         (exec_ops (ops (prune_script sample_platform False (sample_now + 1000) sample_files)) sample_files)) = [] \<and>
   ops (prune_script sample_platform False (sample_now + 1000)
         (exec_ops (ops (prune_script sample_platform False (sample_now + 1000) sample_files)) sample_files)) = []"
proof -
  have h: "\<forall>days. resolveRetentionDays sample_platform sample_files = Inr days \<longrightarrow>
       (\<forall>item \<in> set (history_items sample_platform sample_files).
       \<not> expired sample_platform (sample_now + 1000 - days * 24 * 60 * 60 * 1000) item
         \<longrightarrow> \<not> expired sample_platform (sample_now + 5000 - days * 24 * 60 * 60 * 1000) item)"
    by (simp add: sample_retention sample_now_def sample_items sample_history_def
        sample_expired_later)
  have spared: "filter (expired sample_platform (sample_now + 5000 - 30 * 24 * 60 * 60 * 1000))
     (filter (\<lambda>item. \<not> expired sample_platform (sample_now + 1000 - 30 * 24 * 60 * 60 * 1000) item)
        (history_items sample_platform sample_files)) = []"
    using h by (auto simp: filter_empty_conv sample_retention)
  have first: "ops (prune_script sample_platform False (sample_now + 1000) sample_files) \<noteq> []"
    by (simp add: prune_script_ops sample_retention sample_now_def sample_exists sample_items
        sample_history_def sample_timestamps)
  from prune_idempotent[OF sample_codec_ok h, of False] first spared show ?thesis
    by (simp add: Let_def sample_codec_ok sample_retention del: filter_filter)
qed

subsection \<open>When the script writes\<close>










subsection \<open>A retention in exponent form\<close>

lemma parseInt_exponent: "parseInt ''1e+21'' = Finite 1"
  by (simp add: parseInt_def is_space_def is_digit_def digits_value_def Let_def)

lemma exponent_items: "history_items sample_platform exponent_files = sample_history"
  by (simp add: history_items_def readJson_def sample_platform_def sample_files_def exponent_files_def)

lemma exponent_setting:
  "retention_setting sample_platform exponent_files = JNumber (NumText ''1e+21'')"
  by (simp add: retention_setting_def readJson_def sample_platform_def exponent_files_def)

text \<open>
  C7. The claim sends every configured value above 3650 to the default of 60 days, and
  the range test of \<^verbatim>\<open>resolveRetentionDays\<close> is there to do so. With the settings
  \<^verbatim>\<open>{"historyRetentionDays": 1e21}\<close> the code resolves a retention of 1 day instead:
  \<^verbatim>\<open>String\<close> prints the Number as \<^verbatim>\<open>1e+21\<close>, \<^verbatim>\<open>parseInt\<close> reads the leading \<^verbatim>\<open>1\<close>, and 1
  passes the range test. The run on the sample history then removes every record older
  than one day.
\<close>

theorem resolveRetentionDays_exponent_form:
  "retention_setting sample_platform exponent_files = JNumber (NumText ''1e+21'')
   \<and> resolveRetentionDays sample_platform exponent_files = Inr 1
   \<and> resolveRetentionDays sample_platform exponent_files \<noteq> Inr DEFAULT_RETENTION_DAYS
   \<and> history_items sample_platform
        (exec_ops (ops (prune_script sample_platform False sample_now exponent_files)) exponent_files)
       = [sample_record ''b'' ''not a date'']"
proof -
  have r: "resolveRetentionDays sample_platform exponent_files = Inr 1"
    by (simp add: resolveRetentionDays_parse exponent_setting parseInt_exponent)
  have f: "prune_filter sample_platform (sample_now - 1 * 24 * 60 * 60 * 1000)
             (history_items sample_platform exponent_files)
           = Inr ([sample_record ''b'' ''not a date''], 3)"
    by (simp add: exponent_items sample_history_def sample_timestamps sample_now_def)
  have "history_items sample_platform
        (exec_ops (ops (prune_script sample_platform False sample_now exponent_files)) exponent_files)
       = [sample_record ''b'' ''not a date'']"
    by (rule history_items_after_prune[OF sample_codec_ok _ r f]) simp
  with r show ?thesis
    by (simp add: exponent_setting DEFAULT_RETENTION_DAYS_def)
qed

subsection \<open>The launcher\<close>

text \<open>
  C9. In every launch (any host, port, reload flag and exit status of the prune script)
  the launcher first runs the prune script and has its exit status in hand, then at most
  warns and logs, and only then spawns the backend, once, as its last step; a failed
  prune does not prevent the spawn.
\<close>

theorem prune_runs_before_backend_spawn:
  "\<exists>before. dev_backend backendHost backendPort useReload prune_status
      = [PruneStarted, PruneExited prune_status] @ before
        @ [BackendSpawned (backend_args backendHost backendPort useReload)]
     \<and> (\<forall>args. BackendSpawned args \<notin> set before)
     \<and> PruneStarted \<notin> set before
     \<and> set before \<subseteq> {Warned, Logged}"
  by (rule exI[of _ "(if prune_status \<noteq> Some 0 then [Warned] else []) @ [Logged]"])
     (auto simp: dev_backend_def)

subsection \<open>Health polling and the start button\<close>

lemma checkHealth_returns: "\<exists>u' h. checkHealth u r = Inr (u', h)"
  by (cases "checkHealth_try u r") (auto simp: checkHealth_def)

lemma page_checkHealth_returns: "\<exists>u' h. page_checkHealth u r = Inr (u', h)"
  by (cases "page_checkHealth_try u r") (auto simp: page_checkHealth_def)

lemma checkHealth_unreachable:
  assumes "r = Rejected e \<or> (\<exists>code body. r = Response code body \<and>
             (\<not> ok code \<or> (\<exists>m. body = Inl m) \<or> body = Inr JNull))"
  shows "checkHealth u r = Inr (not_reachable u)"
    and "page_checkHealth u r = Inr (backend_offline u)"
  using assms
  by (auto simp: checkHealth_def checkHealth_try_def page_checkHealth_def page_checkHealth_try_def
      member_def)

lemma nullish_present: "v \<noteq> JNull \<Longrightarrow> nullish (Some v) d = v"
  by (cases v) auto

lemma rule_status:
  assumes "follows_health_rule data"
  shows "normalize (nullish (get_prop data ''status'')
           (JString (if truthy (get_prop data ''ready'') then ''ready'' else ''loading'')))
         = (if get_prop data ''status'' = Some (JString ''error'') then BackendError
            else if truthy (get_prop data ''ready'') then Ready else Loading)"
proof (cases "get_prop data ''status''")
  case None
  then show ?thesis by (simp add: normalize_def)
next
  case (Some s)
  show ?thesis
  proof (cases "s = JNull")
    case True
    with Some show ?thesis by (simp add: normalize_def)
  next
    case False
    with Some assms have "(s = JString ''ready'') = truthy (get_prop data ''ready'')"
      by (simp add: follows_health_rule_def)
    with Some False show ?thesis
      by (auto simp: nullish_present normalize_def)
  qed
qed

lemma checkHealth_body:
  assumes "ok code" "data \<noteq> JNull"
  shows "\<exists>u' h. checkHealth u (Response code (Inr data)) = Inr (u', h)
      \<and> ready h = truthy (get_prop data ''ready'')
      \<and> status h = normalize (nullish (get_prop data ''status'')
                     (JString (if truthy (get_prop data ''ready'') then ''ready'' else ''loading'')))
      \<and> backendOk u' = Some True
      \<and> backendState u' = status h"
  using assms by (simp add: checkHealth_def checkHealth_try_def member_def Let_def)

lemma page_checkHealth_body:
  assumes "ok code" "data \<noteq> JNull"
  shows "\<exists>u' h. page_checkHealth u (Response code (Inr data)) = Inr (u', h)
      \<and> ready h = truthy (get_prop data ''ready'')
      \<and> status h = (if truthy (get_prop data ''ready'') then Ready else Loading)
      \<and> backendOk u' = Some True
      \<and> backendState u' = status h"
  using assms by (simp add: page_checkHealth_def page_checkHealth_try_def member_def Let_def)

lemma page_ready_iff:
  assumes "page_checkHealth u r = Inr (u1, h)"
  shows "ready h \<longleftrightarrow> status h = Ready"
  using assms
  by (auto simp: page_checkHealth_def page_checkHealth_try_def backend_offline_def member_def
      Let_def split: fetched.splits sum.splits if_splits)

lemma rule_ready_iff:
  assumes "checkHealth u r = Inr (u1, h)"
    and "\<forall>code data. r = Response code (Inr data) \<and> ok code \<and> data \<noteq> JNull
           \<longrightarrow> follows_health_rule data"
  shows "ready h \<longleftrightarrow> status h = Ready"
proof (cases "\<exists>code data. r = Response code (Inr data) \<and> ok code \<and> data \<noteq> JNull")
  case True
  then obtain code data where r: "r = Response code (Inr data)" "ok code" "data \<noteq> JNull"
    by blast
  with assms(2) have rule: "follows_health_rule data" by blast
  from checkHealth_body[OF r(2,3), of u] assms(1) r(1)
  have "ready h = truthy (get_prop data ''ready'')"
    and "status h = normalize (nullish (get_prop data ''status'')
                     (JString (if truthy (get_prop data ''ready'') then ''ready'' else ''loading'')))"
    by auto
  with rule_status[OF rule] show ?thesis
    using rule by (auto simp: follows_health_rule_def split: if_splits)
next
  case False
  then have "checkHealth u r = Inr (not_reachable u)"
    by (auto simp: checkHealth_def checkHealth_try_def member_def
        split: fetched.splits sum.splits)
  with assms(1) show ?thesis by (auto simp: not_reachable_def)
qed

lemma start_with_not_ready:
  assumes "check (u\<lparr>ui_error := None\<rparr>) hr = Inr (u1, h)" "\<not> ready h"
  shows "snd (start_with check u hr sr) = [GET_health]"
    and "ui_status (fst (start_with check u hr sr)) = StatusError"
    and "ui_error (fst (start_with check u hr sr)) \<noteq> None"
  using assms by (simp_all add: start_with_def Let_def)

lemma start_with_ready:
  assumes "check (u\<lparr>ui_error := None\<rparr>) hr = Inr (u1, h)" "ready h"
  shows "snd (start_with check u hr sr) = [GET_health, POST_start]"
  using assms
  by (cases sr) (auto simp: start_with_def Let_def split: sum.splits)

lemma start_with_gate:
  assumes "check (u\<lparr>ui_error := None\<rparr>) hr = Inr (u1, h)" "ready h \<longleftrightarrow> status h = Ready"
  shows "(POST_start \<in> set (snd (start_with check u hr sr)) \<longleftrightarrow> status h = Ready)
       \<and> (status h = Loading \<or> status h = Offline \<or> status h = BackendError
            \<longrightarrow> snd (start_with check u hr sr) = [GET_health]
              \<and> ui_status (fst (start_with check u hr sr)) = StatusError
              \<and> ui_error (fst (start_with check u hr sr)) \<noteq> None)
       \<and> (status h = Ready \<longrightarrow> snd (start_with check u hr sr) = [GET_health, POST_start])"
proof (cases "ready h")
  case True
  with assms(2) have "status h = Ready" by simp
  with start_with_ready[where check=check and u=u and hr=hr and sr=sr, OF assms(1) True] show ?thesis by simp
next
  case False
  with assms(2) have "status h \<noteq> Ready" by simp
  with start_with_not_ready[where check=check and u=u and hr=hr and sr=sr, OF assms(1) False] show ?thesis by simp
qed

lemma sample_health:
  "map_sum id snd (checkHealth u (Response 200 (Inr ready_body)))
     = Inr \<lparr>ready = True, status = Ready, message = JString []\<rparr>"
  "map_sum id snd (checkHealth u (Response 200 (Inr loading_body)))
     = Inr \<lparr>ready = False, status = Loading, message = JString ''Loading model''\<rparr>"
  "map_sum id snd (checkHealth u (Response 200 (Inr ready_status_body)))
     = Inr \<lparr>ready = True, status = Ready, message = JString []\<rparr>"
  "map_sum id snd (checkHealth u (Response 200 (Inr error_body)))
     = Inr \<lparr>ready = False, status = BackendError, message = JString ''model failed to load''\<rparr>"
  "map_sum id snd (checkHealth u (Rejected ''Failed to fetch''))
     = Inr \<lparr>ready = False, status = Offline, message = JString ''Backend not reachable''\<rparr>"
  by (simp_all add: checkHealth_def checkHealth_try_def member_def ready_body_def loading_body_def
      ready_status_body_def error_body_def ok_def normalize_def not_reachable_def Let_def)

lemma sample_page_health:
  "map_sum id snd (page_checkHealth u (Response 200 (Inr ready_status_body)))
     = Inr \<lparr>ready = True, status = Ready, message = JString ''Ready''\<rparr>"
  "map_sum id snd (page_checkHealth u (Response 200 (Inr loading_body)))
     = Inr \<lparr>ready = False, status = Loading, message = JString ''Loading model...''\<rparr>"
  "map_sum id snd (page_checkHealth u (Rejected ''Failed to fetch''))
     = Inr \<lparr>ready = False, status = Offline, message = JString ''Backend offline''\<rparr>"
  by (simp_all add: page_checkHealth_def page_checkHealth_try_def member_def
      ready_status_body_def loading_body_def ok_def backend_offline_def Let_def)

lemma sample_rule:
  "follows_health_rule ready_body" "follows_health_rule loading_body"
  "follows_health_rule ready_status_body" "follows_health_rule error_body"
  by (simp_all add: follows_health_rule_def ready_body_def loading_body_def
      ready_status_body_def error_body_def)

text \<open>
  C6. \<^verbatim>\<open>checkHealth\<close> never throws: in both copies, for every state and every outcome
  of the request, it returns a result. The result is \<^verbatim>\<open>offline\<close>, with \<^verbatim>\<open>ready: false\<close>,
  when the request fails, the response is not OK, or the body cannot be read as a JSON
  value with properties. For a readable body that follows the health rule, the copy with
  the \<^verbatim>\<open>error\<close> state returns \<^verbatim>\<open>error\<close> when the body reports \<^verbatim>\<open>error\<close>, and otherwise
  \<^verbatim>\<open>ready\<close> when the body's \<^verbatim>\<open>ready\<close> is true and \<^verbatim>\<open>loading\<close> when it is false. The copy
  in \<^verbatim>\<open>app/page.tsx\<close>, which has no \<^verbatim>\<open>error\<close> state, returns \<^verbatim>\<open>ready\<close> when the body's
  \<^verbatim>\<open>ready\<close> is true and \<^verbatim>\<open>loading\<close> when it is false, for every readable body.
\<close>

theorem checkHealth_never_raises:
  "(\<exists>u' h. checkHealth u r = Inr (u', h))
   \<and> (\<exists>u' h. page_checkHealth u r = Inr (u', h))
   \<and> (r = Rejected e \<or> (\<exists>code body. r = Response code body \<and>
             (\<not> ok code \<or> (\<exists>m. body = Inl m) \<or> body = Inr JNull))
        \<longrightarrow> (\<exists>u' h. checkHealth u r = Inr (u', h) \<and> status h = Offline \<and> \<not> ready h
                   \<and> backendState u' = Offline \<and> backendOk u' = Some False)
          \<and> (\<exists>u' h. page_checkHealth u r = Inr (u', h) \<and> status h = Offline \<and> \<not> ready h
                   \<and> backendState u' = Offline \<and> backendOk u' = Some False))
   \<and> (\<forall>code data. r = Response code (Inr data) \<and> ok code \<and> data \<noteq> JNull
                    \<and> follows_health_rule data
        \<longrightarrow> (\<exists>u' h. checkHealth u r = Inr (u', h)
               \<and> backendState u' = status h \<and> backendOk u' = Some True
               \<and> ready h = truthy (get_prop data ''ready'')
               \<and> status h =
                   (if get_prop data ''status'' = Some (JString ''error'') then BackendError
                    else if truthy (get_prop data ''ready'') then Ready
                    else Loading)))
   \<and> (\<forall>code data. r = Response code (Inr data) \<and> ok code \<and> data \<noteq> JNull
        \<longrightarrow> (\<exists>u' h. page_checkHealth u r = Inr (u', h)
               \<and> backendState u' = status h \<and> backendOk u' = Some True
               \<and> ready h = truthy (get_prop data ''ready'')
               \<and> status h = (if truthy (get_prop data ''ready'') then Ready else Loading)))"
proof (intro conjI impI allI)
  show "\<exists>u' h. checkHealth u r = Inr (u', h)" by (rule checkHealth_returns)
  show "\<exists>u' h. page_checkHealth u r = Inr (u', h)" by (rule page_checkHealth_returns)
next
  assume a: "r = Rejected e \<or> (\<exists>code body. r = Response code body \<and>
             (\<not> ok code \<or> (\<exists>m. body = Inl m) \<or> body = Inr JNull))"
  from checkHealth_unreachable(1)[OF a, of u]
  show "\<exists>u' h. checkHealth u r = Inr (u', h) \<and> status h = Offline \<and> \<not> ready h
                   \<and> backendState u' = Offline \<and> backendOk u' = Some False"
    by (simp add: not_reachable_def)
  from checkHealth_unreachable(2)[OF a, of u]
  show "\<exists>u' h. page_checkHealth u r = Inr (u', h) \<and> status h = Offline \<and> \<not> ready h
                   \<and> backendState u' = Offline \<and> backendOk u' = Some False"
    by (simp add: backend_offline_def)
next
  fix code data
  assume a: "r = Response code (Inr data) \<and> ok code \<and> data \<noteq> JNull \<and> follows_health_rule data"
  then have r: "r = Response code (Inr data)" and c: "ok code" and d: "data \<noteq> JNull"
    and rule: "follows_health_rule data" by simp_all
  from checkHealth_body[OF c d, of u] rule_status[OF rule]
  show "\<exists>u' h. checkHealth u r = Inr (u', h)
               \<and> backendState u' = status h \<and> backendOk u' = Some True
               \<and> ready h = truthy (get_prop data ''ready'')
               \<and> status h =
                   (if get_prop data ''status'' = Some (JString ''error'') then BackendError
                    else if truthy (get_prop data ''ready'') then Ready
                    else Loading)"
    unfolding r by metis
next
  fix code data
  assume a: "r = Response code (Inr data) \<and> ok code \<and> data \<noteq> JNull"
  then have r: "r = Response code (Inr data)" and c: "ok code" and d: "data \<noteq> JNull"
    by simp_all
  from page_checkHealth_body[OF c d, of u]
  show "\<exists>u' h. page_checkHealth u r = Inr (u', h)
               \<and> backendState u' = status h \<and> backendOk u' = Some True
               \<and> ready h = truthy (get_prop data ''ready'')
               \<and> status h = (if truthy (get_prop data ''ready'') then Ready else Loading)"
    unfolding r by metis
qed

theorem checkHealth_never_raises_witness:
  "follows_health_rule ready_status_body \<and> follows_health_rule error_body
   \<and> follows_health_rule loading_body
   \<and> map_sum id (status \<circ> snd) (checkHealth initial_ui (Response 200 (Inr ready_status_body))) = Inr Ready
   \<and> map_sum id (status \<circ> snd) (checkHealth initial_ui (Response 200 (Inr loading_body))) = Inr Loading
   \<and> map_sum id (status \<circ> snd) (checkHealth initial_ui (Response 200 (Inr error_body))) = Inr BackendError
   \<and> map_sum id (status \<circ> snd) (checkHealth initial_ui (Response 503 (Inr loading_body))) = Inr Offline
   \<and> map_sum id (status \<circ> snd) (checkHealth initial_ui (Rejected ''Failed to fetch'')) = Inr Offline
   \<and> map_sum id (status \<circ> snd) (checkHealth initial_ui (Response 200 (Inl ''Unexpected token''))) = Inr Offline
   \<and> map_sum id (status \<circ> snd) (page_checkHealth initial_ui (Response 200 (Inr ready_status_body))) = Inr Ready
   \<and> map_sum id (status \<circ> snd) (page_checkHealth initial_ui (Response 503 (Inr loading_body))) = Inr Offline"
proof -
  have 1: "map_sum id (status \<circ> snd) (checkHealth initial_ui (Response 200 (Inr ready_status_body))) = Inr Ready"
    using checkHealth_never_raises[of initial_ui "Response 200 (Inr ready_status_body)"] sample_rule(3)
    by (auto simp: ok_def ready_status_body_def)
  have 2: "map_sum id (status \<circ> snd) (checkHealth initial_ui (Response 200 (Inr loading_body))) = Inr Loading"
    using checkHealth_never_raises[of initial_ui "Response 200 (Inr loading_body)"] sample_rule(2)
    by (auto simp: ok_def loading_body_def)
  have 3: "map_sum id (status \<circ> snd) (checkHealth initial_ui (Response 200 (Inr error_body))) = Inr BackendError"
    using checkHealth_never_raises[of initial_ui "Response 200 (Inr error_body)"] sample_rule(4)
    by (auto simp: ok_def error_body_def)
  have 4: "map_sum id (status \<circ> snd) (checkHealth initial_ui (Response 503 (Inr loading_body))) = Inr Offline"
    and 8: "map_sum id (status \<circ> snd) (page_checkHealth initial_ui (Response 503 (Inr loading_body))) = Inr Offline"
    using checkHealth_never_raises[of initial_ui "Response 503 (Inr loading_body)"]
    by (auto simp: ok_def)
  have 5: "map_sum id (status \<circ> snd) (checkHealth initial_ui (Rejected ''Failed to fetch'')) = Inr Offline"
    using checkHealth_never_raises[of initial_ui "Rejected ''Failed to fetch''" "''Failed to fetch''"]
    by auto
  have 6: "map_sum id (status \<circ> snd) (checkHealth initial_ui (Response 200 (Inl ''Unexpected token''))) = Inr Offline"
    using checkHealth_never_raises[of initial_ui "Response 200 (Inl ''Unexpected token'')"]
    by auto
  have 7: "map_sum id (status \<circ> snd) (page_checkHealth initial_ui (Response 200 (Inr ready_status_body))) = Inr Ready"
    using checkHealth_never_raises[of initial_ui "Response 200 (Inr ready_status_body)"]
    by (auto simp: ok_def ready_status_body_def)
  from 1 2 3 4 5 6 7 8 sample_rule show ?thesis by blast
qed

text \<open>
  C8. Whatever state the client is in, \<^verbatim>\<open>start\<close> polls the health first and issues
  \<^verbatim>\<open>POST /start\<close> if and only if the derived status of the fresh result is \<^verbatim>\<open>ready\<close>;
  when the status is \<^verbatim>\<open>loading\<close>, \<^verbatim>\<open>offline\<close> or \<^verbatim>\<open>error\<close> it issues no \<^verbatim>\<open>/start\<close>
  request, sets the status to \<^verbatim>\<open>error\<close> and reports an error message. In
  \<^verbatim>\<open>app/page.tsx\<close> this holds for every response; in the copy with the \<^verbatim>\<open>error\<close> state it
  holds for every response whose body follows the health rule.
\<close>

theorem start_gated_by_health_status:
  "(\<exists>u1 h. page_checkHealth (u\<lparr>ui_error := None\<rparr>) hr = Inr (u1, h)
       \<and> (POST_start \<in> set (snd (page_start u hr sr)) \<longleftrightarrow> status h = Ready)
       \<and> (status h = Loading \<or> status h = Offline \<or> status h = BackendError
            \<longrightarrow> snd (page_start u hr sr) = [GET_health]
              \<and> ui_status (fst (page_start u hr sr)) = StatusError
              \<and> ui_error (fst (page_start u hr sr)) \<noteq> None)
       \<and> (status h = Ready \<longrightarrow> snd (page_start u hr sr) = [GET_health, POST_start]))
   \<and> ((\<forall>code data. hr = Response code (Inr data) \<and> ok code \<and> data \<noteq> JNull
                      \<longrightarrow> follows_health_rule data)
        \<longrightarrow> (\<exists>u1 h. checkHealth (u\<lparr>ui_error := None\<rparr>) hr = Inr (u1, h)
               \<and> (POST_start \<in> set (snd (start u hr sr)) \<longleftrightarrow> status h = Ready)
               \<and> (status h = Loading \<or> status h = Offline \<or> status h = BackendError
                    \<longrightarrow> snd (start u hr sr) = [GET_health]
                      \<and> ui_status (fst (start u hr sr)) = StatusError
                      \<and> ui_error (fst (start u hr sr)) \<noteq> None)
               \<and> (status h = Ready \<longrightarrow> snd (start u hr sr) = [GET_health, POST_start])))"
proof (intro conjI impI)
  obtain u1 h where ch: "page_checkHealth (u\<lparr>ui_error := None\<rparr>) hr = Inr (u1, h)"
    using page_checkHealth_returns by blast
  from start_with_gate[where check=page_checkHealth and u=u and hr=hr and sr=sr,
      OF ch page_ready_iff[OF ch]] ch
  show "\<exists>u1 h. page_checkHealth (u\<lparr>ui_error := None\<rparr>) hr = Inr (u1, h)
       \<and> (POST_start \<in> set (snd (page_start u hr sr)) \<longleftrightarrow> status h = Ready)
       \<and> (status h = Loading \<or> status h = Offline \<or> status h = BackendError
            \<longrightarrow> snd (page_start u hr sr) = [GET_health]
              \<and> ui_status (fst (page_start u hr sr)) = StatusError
              \<and> ui_error (fst (page_start u hr sr)) \<noteq> None)
       \<and> (status h = Ready \<longrightarrow> snd (page_start u hr sr) = [GET_health, POST_start])"
    unfolding page_start_def by blast
next
  assume rule: "\<forall>code data. hr = Response code (Inr data) \<and> ok code \<and> data \<noteq> JNull
                      \<longrightarrow> follows_health_rule data"
  obtain u1 h where ch: "checkHealth (u\<lparr>ui_error := None\<rparr>) hr = Inr (u1, h)"
    using checkHealth_returns by blast
  from start_with_gate[where check=checkHealth and u=u and hr=hr and sr=sr,
      OF ch rule_ready_iff[OF ch rule]] ch
  show "\<exists>u1 h. checkHealth (u\<lparr>ui_error := None\<rparr>) hr = Inr (u1, h)
               \<and> (POST_start \<in> set (snd (start u hr sr)) \<longleftrightarrow> status h = Ready)
               \<and> (status h = Loading \<or> status h = Offline \<or> status h = BackendError
                    \<longrightarrow> snd (start u hr sr) = [GET_health]
                      \<and> ui_status (fst (start u hr sr)) = StatusError
                      \<and> ui_error (fst (start u hr sr)) \<noteq> None)
               \<and> (status h = Ready \<longrightarrow> snd (start u hr sr) = [GET_health, POST_start])"
    unfolding start_def by blast
qed

lemma health_of:
  "x = Inr (u1, h) \<Longrightarrow> map_sum id snd x = Inr h' \<Longrightarrow> h = h'"
  by simp

theorem start_gated_by_health_status_witness:
  "follows_health_rule ready_status_body \<and> follows_health_rule error_body
   \<and> follows_health_rule loading_body
   \<and> snd (start (initial_ui\<lparr>ui_status := Recording\<rparr>) (Response 200 (Inr ready_status_body))
            (Response 200 (Inr [])))
       = [GET_health, POST_start]
   \<and> snd (start initial_ui (Response 200 (Inr loading_body)) (Response 200 (Inr []))) = [GET_health]
   \<and> ui_status (fst (start initial_ui (Response 200 (Inr loading_body)) (Response 200 (Inr []))))
       = StatusError
   \<and> snd (start initial_ui (Response 200 (Inr error_body)) (Response 200 (Inr []))) = [GET_health]
   \<and> snd (page_start initial_ui (Response 200 (Inr ready_status_body)) (Response 200 (Inr [])))
       = [GET_health, POST_start]
   \<and> snd (page_start initial_ui (Response 200 (Inr loading_body)) (Response 200 (Inr [])))
       = [GET_health]"
proof -
  let ?sr = "Response 200 (Inr [])"
  have 1: "snd (start (initial_ui\<lparr>ui_status := Recording\<rparr>) (Response 200 (Inr ready_status_body)) ?sr)
       = [GET_health, POST_start]"
  proof -
    let ?u = "initial_ui\<lparr>ui_status := Recording\<rparr>"
    let ?hr = "Response 200 (Inr ready_status_body)"
    have rule: "\<forall>code data. ?hr = Response code (Inr data) \<and> ok code \<and> data \<noteq> JNull
                  \<longrightarrow> follows_health_rule data"
      using sample_rule(3) by simp
    from start_gated_by_health_status[of ?u ?hr ?sr, THEN conjunct2, THEN mp, OF rule]
    obtain u1 h where ch: "checkHealth (?u\<lparr>ui_error := None\<rparr>) ?hr = Inr (u1, h)"
      and g: "status h = Ready \<longrightarrow> snd (start ?u ?hr ?sr) = [GET_health, POST_start]"
      by blast
    from health_of[OF ch sample_health(3)] have "status h = Ready" by simp
    with g show ?thesis by simp
  qed
  have 2: "snd (start initial_ui (Response 200 (Inr loading_body)) ?sr) = [GET_health]
   \<and> ui_status (fst (start initial_ui (Response 200 (Inr loading_body)) ?sr)) = StatusError"
  proof -
    let ?hr = "Response 200 (Inr loading_body)"
    have rule: "\<forall>code data. ?hr = Response code (Inr data) \<and> ok code \<and> data \<noteq> JNull
                  \<longrightarrow> follows_health_rule data"
      using sample_rule(2) by simp
    from start_gated_by_health_status[of initial_ui ?hr ?sr, THEN conjunct2, THEN mp, OF rule]
    obtain u1 h where ch: "checkHealth (initial_ui\<lparr>ui_error := None\<rparr>) ?hr = Inr (u1, h)"
      and g: "status h = Loading \<or> status h = Offline \<or> status h = BackendError
                \<longrightarrow> snd (start initial_ui ?hr ?sr) = [GET_health]
                  \<and> ui_status (fst (start initial_ui ?hr ?sr)) = StatusError
                  \<and> ui_error (fst (start initial_ui ?hr ?sr)) \<noteq> None"
      by blast
    from health_of[OF ch sample_health(2)] have "status h = Loading" by simp
    with g show ?thesis by simp
  qed
  have 3: "snd (start initial_ui (Response 200 (Inr error_body)) ?sr) = [GET_health]"
  proof -
    let ?hr = "Response 200 (Inr error_body)"
    have rule: "\<forall>code data. ?hr = Response code (Inr data) \<and> ok code \<and> data \<noteq> JNull
                  \<longrightarrow> follows_health_rule data"
      using sample_rule(4) by simp
    from start_gated_by_health_status[of initial_ui ?hr ?sr, THEN conjunct2, THEN mp, OF rule]
    obtain u1 h where ch: "checkHealth (initial_ui\<lparr>ui_error := None\<rparr>) ?hr = Inr (u1, h)"
      and g: "status h = Loading \<or> status h = Offline \<or> status h = BackendError
                \<longrightarrow> snd (start initial_ui ?hr ?sr) = [GET_health]
                  \<and> ui_status (fst (start initial_ui ?hr ?sr)) = StatusError
                  \<and> ui_error (fst (start initial_ui ?hr ?sr)) \<noteq> None"
      by blast
    from health_of[OF ch sample_health(4)] have "status h = BackendError" by simp
    with g show ?thesis by simp
  qed
  have 4: "snd (page_start initial_ui (Response 200 (Inr ready_status_body)) ?sr)
       = [GET_health, POST_start]"
  proof -
    let ?hr = "Response 200 (Inr ready_status_body)"
    from start_gated_by_health_status[of initial_ui ?hr ?sr, THEN conjunct1]
    obtain u1 h where ch: "page_checkHealth (initial_ui\<lparr>ui_error := None\<rparr>) ?hr = Inr (u1, h)"
      and g: "status h = Ready \<longrightarrow> snd (page_start initial_ui ?hr ?sr) = [GET_health, POST_start]"
      by blast
    from health_of[OF ch sample_page_health(1)] have "status h = Ready" by simp
    with g show ?thesis by simp
  qed
  have 5: "snd (page_start initial_ui (Response 200 (Inr loading_body)) ?sr) = [GET_health]"
  proof -
    let ?hr = "Response 200 (Inr loading_body)"
    from start_gated_by_health_status[of initial_ui ?hr ?sr, THEN conjunct1]
    obtain u1 h where ch: "page_checkHealth (initial_ui\<lparr>ui_error := None\<rparr>) ?hr = Inr (u1, h)"
      and g: "status h = Loading \<or> status h = Offline \<or> status h = BackendError
                \<longrightarrow> snd (page_start initial_ui ?hr ?sr) = [GET_health]
                  \<and> ui_status (fst (page_start initial_ui ?hr ?sr)) = StatusError
                  \<and> ui_error (fst (page_start initial_ui ?hr ?sr)) \<noteq> None"
      by blast
    from health_of[OF ch sample_page_health(2)] have "status h = Loading" by simp
    with g show ?thesis by simp
  qed
  from 1 2 3 4 5 sample_rule show ?thesis by blast
qed

subsection \<open>Mutual exclusion of sessions\<close>

lemma advance_hit: "snd s = from \<Longrightarrow> advance from to s = (fst s, to)"
  by (simp add: advance_def)

lemma advance_miss: "snd s \<noteq> from \<Longrightarrow> advance from to s = s"
  by (simp add: advance_def)

lemma live_advance_recording:
  assumes "filter (\<lambda>s. snd s = Session_Recording \<or> snd s = Session_Transcribing) xs = [x]" "snd x = Session_Recording"
  shows "filter (\<lambda>s. snd s = Session_Recording \<or> snd s = Session_Transcribing) (map (advance Session_Recording Session_Transcribing) xs)
           = [(fst x, Session_Transcribing)]"
  using assms
proof (induction xs)
  case Nil
  then show ?case by simp
next
  case (Cons a xs)
  show ?case
  proof (cases "snd a = Session_Recording \<or> snd a = Session_Transcribing")
    case True
    with Cons.prems have ax: "a = x" and rest: "filter (\<lambda>s. snd s = Session_Recording \<or> snd s = Session_Transcribing) xs = []"
      by auto
    from rest have "filter (\<lambda>s. snd s = Session_Recording \<or> snd s = Session_Transcribing) (map (advance Session_Recording Session_Transcribing) xs) = []"
      by (auto simp: filter_empty_conv advance_hit advance_miss)
    with ax Cons.prems(2) show ?thesis by (simp add: advance_hit)
  next
    case False
    with Cons show ?thesis by (auto simp: advance_miss)
  qed
qed

lemma live_advance_transcribing:
  assumes "filter (\<lambda>s. snd s = Session_Recording \<or> snd s = Session_Transcribing) xs = [x]" "snd x = Session_Transcribing"
    "final = Session_Idle \<or> final = Session_Error"
  shows "filter (\<lambda>s. snd s = Session_Recording \<or> snd s = Session_Transcribing) (map (advance Session_Transcribing final) xs) = []"
  using assms
proof (induction xs)
  case Nil
  then show ?case by simp
next
  case (Cons a xs)
  show ?case
  proof (cases "snd a = Session_Recording \<or> snd a = Session_Transcribing")
    case True
    with Cons.prems have ax: "a = x" and rest: "filter (\<lambda>s. snd s = Session_Recording \<or> snd s = Session_Transcribing) xs = []"
      by auto
    from rest have "filter (\<lambda>s. snd s = Session_Recording \<or> snd s = Session_Transcribing) (map (advance Session_Transcribing final) xs) = []"
      using Cons.prems(3) by (auto simp: filter_empty_conv advance_hit advance_miss)
    with ax Cons.prems(2,3) show ?thesis by (auto simp: advance_hit)
  next
    case False
    with Cons show ?thesis by (auto simp: advance_miss)
  qed
qed

lemma single_live:
  "length xs = 1 \<Longrightarrow> xs = [hd xs]"
  by (cases xs) auto

lemma consistent_transition: "consistent c \<Longrightarrow> consistent (fst (transition c e))"
proof (cases e)
  case (StartCall caller model_ready)
  assume "consistent c"
  then show ?thesis using StartCall
    by (cases "state c") (auto simp: consistent_def live_def)
next
  case (StopCall caller)
  assume c: "consistent c"
  show ?thesis
  proof (cases "state c = Session_Recording")
    case True
    with c have "live c = [hd (live c)]" "snd (hd (live c)) = Session_Recording"
      by (auto simp: consistent_def intro: single_live)
    from live_advance_recording[OF this[unfolded live_def]] True StopCall
    show ?thesis by (simp add: consistent_def live_def)
  next
    case False
    with c StopCall show ?thesis by (cases "state c") (auto simp: consistent_def)
  qed
next
  case (EngineDone success)
  assume c: "consistent c"
  show ?thesis
  proof (cases "state c = Session_Transcribing")
    case True
    with c have l: "live c = [hd (live c)]" "snd (hd (live c)) = Session_Transcribing"
      by (auto simp: consistent_def intro: single_live)
    have "filter (\<lambda>s. snd s = Session_Recording \<or> snd s = Session_Transcribing)
            (map (advance Session_Transcribing (if success then Session_Idle else Session_Error)) (sessions c)) = []"
      by (rule live_advance_transcribing[OF l[unfolded live_def]]) simp
    with True EngineDone show ?thesis by (simp add: consistent_def live_def Let_def)
  next
    case False
    with c EngineDone show ?thesis by simp
  qed
qed

lemma consistent_run: "consistent c \<Longrightarrow> consistent (run c calls)"
  unfolding run_def
  by (induction calls arbitrary: c) (simp_all add: consistent_transition)

lemma consistent_idle: "consistent idle_controller"
  by (simp add: consistent_def idle_controller_def live_def)

lemma first_start_opens_session:
  "live (run idle_controller [StartCall 1 True]) = [(1, Session_Recording)]"
  by (simp add: run_def live_def idle_controller_def)

lemma second_start_rejected:
  "snd (transition (run idle_controller [StartCall 1 True]) (StartCall 2 True)) = AlreadyRecording"
  by (simp add: run_def idle_controller_def)

lemma stop_while_transcribing_rejected:
  "snd (transition (run idle_controller [StartCall 1 True, StopCall 2]) (StopCall 1))
     = AlreadyTranscribing"
  by (simp add: run_def idle_controller_def)

text \<open>
  C1. In the controller modelled from the spec, after any sequence of \<^verbatim>\<open>start()\<close> and
  \<^verbatim>\<open>stop()\<close> calls by any callers, interleaved in any order with the engine's
  answers, at most one session is in \<^verbatim>\<open>Recording\<close> or \<^verbatim>\<open>Transcribing\<close>. Every
  instant of an execution is the end of such a sequence.
\<close>

theorem at_most_one_live_session:
  "length (live (run idle_controller calls)) \<le> 1"
  using consistent_run[OF consistent_idle, of calls]
  by (auto simp: consistent_def split: if_splits)

end
